theory Spec2Isabelle
  imports Complex_Main
begin


section \<open>Data model\<close>

text \<open>
  The interfaces \<open>Entity\<close>, \<open>Relation\<close> and \<open>KnowledgeGraph\<close> of the memory server.
  An object parsed from the memory file also carries the property \<open>type\<close> it was
  written with (\<open>loadGraph\<close> pushes the parsed object as it is), so both records have
  an optional field for it: \<open>None\<close> when the object has no such property, as for a
  value of the declared interface that a caller passes in.

  Strings are lists of 8-bit characters; objects are values (two list entries never
  alias one object).
\<close>

record entity =
  e_type :: "string option"
  name :: string
  entityType :: string
  observations :: "string list"

record relation =
  r_type :: "string option"
  from' :: string
  to' :: string
  relationType :: string

record knowledge_graph =
  entities :: "entity list"
  relations :: "relation list"

text \<open>
  What \<open>JSON.parse\<close> gives for one line of the memory file: an object of the shape of
  an entity, of the shape of a relation, or any other value (of which only its
  \<open>type\<close> property is kept).
\<close>

datatype item = EntityItem entity | RelationItem relation | OtherItem "string option"

text \<open>
  Errors: the \<open>SyntaxError\<close> of \<open>JSON.parse\<close>, a \<open>TypeError\<close>, and
  \<open>new Error(message)\<close>. \<open>Ill_typed\<close> is not an exception of the program:
  it marks the point where an unchecked cast (\<open>item as Entity\<close>) is applied to an
  object of another shape, after which the program runs on outside its declared types.
\<close>

datatype error = SyntaxError | TypeError | Error string | Ill_typed

text \<open>Document ids of a search index: numbers for entities, strings for observations.\<close>

datatype doc_id = NumId nat | StrId string

type_synonym index = "(doc_id \<times> string) list"

text \<open>
  The platform: \<open>JSON.stringify\<close>, \<open>JSON.parse\<close> (\<open>None\<close> is the thrown
  \<open>SyntaxError\<close>) and the \<open>search\<close> method of the FlexSearch \<open>Index\<close>. None
  of them is code of the server, so they are parameters. An index is represented by the
  documents added to it since it was created, in the order of the \<open>add\<close> calls;
  \<open>Index_search idx query limit\<close> is \<open>idx.search(query, {limit})\<close>.
\<close>

record platform =
  JSON_stringify :: "item \<Rightarrow> string"
  JSON_parse :: "string \<Rightarrow> item option"
  Index_search :: "index \<Rightarrow> string \<Rightarrow> nat \<Rightarrow> doc_id list"

text \<open>
  The state: the content of the file at \<open>MEMORY_FILE_PATH\<close> (\<open>None\<close> when the file
  does not exist) and the two indexes of the manager. Reading fails only with
  \<open>ENOENT\<close>, and writing succeeds.
\<close>

record state =
  memory_file :: "string option"
  entityIndex :: index
  observationIndex :: index

section \<open>Strings\<close>

text \<open>White space and line terminators of JavaScript among the characters below 256.\<close>

definition is_space :: "char \<Rightarrow> bool" where
  "is_space c = (of_char c \<in> {9, 10, 11, 12, 13, 32, 160 :: nat})"

definition trim :: "string \<Rightarrow> string" where
  "trim s = rev (dropWhile is_space (rev (dropWhile is_space s)))"

text \<open>\<open>data.split("\n")\<close>: always at least one piece.\<close>

fun split_nl :: "string \<Rightarrow> string list" where
  "split_nl [] = [[]]"
| "split_nl (c # cs) =
     (if c = CHR 10 then [] # split_nl cs
      else (case split_nl cs of l # ls \<Rightarrow> (c # l) # ls | [] \<Rightarrow> [[c]]))"

text \<open>\<open>lines.join("\n")\<close>.\<close>

fun join_nl :: "string list \<Rightarrow> string" where
  "join_nl [] = []"
| "join_nl [l] = l"
| "join_nl (l # ls) = l @ CHR 10 # join_nl ls"

text \<open>\<open>String(n)\<close> for an array index: its decimal digits.\<close>

definition digit_char :: "nat \<Rightarrow> char" where
  "digit_char d = char_of (48 + d)"

fun String_of_nat :: "nat \<Rightarrow> string" where
  "String_of_nat n =
     (if n < 10 then [digit_char n] else String_of_nat (n div 10) @ [digit_char (n mod 10)])"

declare String_of_nat.simps [simp del]

text \<open>
  \<open>parseInt(s)\<close> with no radix: leading white space, a sign, \<open>0x\<close> for radix 16,
  then the longest run of digits; \<open>None\<close> is \<open>NaN\<close>.
\<close>

definition digit_val :: "char \<Rightarrow> nat option" where
  "digit_val c =
     (let k = (of_char c :: nat) in
      if 48 \<le> k \<and> k \<le> 57 then Some (k - 48)
      else if 97 \<le> k \<and> k \<le> 122 then Some (k - 87)
      else if 65 \<le> k \<and> k \<le> 90 then Some (k - 55)
      else None)"

definition is_digit :: "nat \<Rightarrow> char \<Rightarrow> bool" where
  "is_digit radix c = (case digit_val c of None \<Rightarrow> False | Some d \<Rightarrow> d < radix)"

definition digits_value :: "nat \<Rightarrow> string \<Rightarrow> nat" where
  "digits_value radix ds = foldl (\<lambda>a c. a * radix + the (digit_val c)) 0 ds"

definition parseInt :: "string \<Rightarrow> int option" where
  "parseInt s =
     (let s1 = dropWhile is_space s;
          neg = (case s1 of c # _ \<Rightarrow> c = CHR ''-'' | [] \<Rightarrow> False);
          s2 = (case s1 of c # r \<Rightarrow> if c = CHR ''-'' \<or> c = CHR ''+'' then r else s1 | [] \<Rightarrow> s1);
          hex = (case s2 of a # b # _ \<Rightarrow> a = CHR ''0'' \<and> (b = CHR ''x'' \<or> b = CHR ''X'') | _ \<Rightarrow> False);
          radix = (if hex then 16 else 10);
          s3 = (if hex then drop 2 s2 else s2);
          ds = takeWhile (is_digit radix) s3
      in if ds = [] then None
         else Some ((if neg then - 1 else 1) * int (digits_value radix ds)))"

section \<open>The persistent graph store\<close>

text \<open>\<open>xs.forEach((x, index) => ...)\<close> and \<open>xs.filter((x, index) => ...)\<close> see each element with its position.\<close>

definition enumerate_from0 :: "'a list \<Rightarrow> (nat \<times> 'a) list" where
  "enumerate_from0 xs = zip [0..<length xs] xs"

text \<open>
  \<open>rebuildIndexes\<close>: two fresh indexes; the entity at position \<open>i\<close> is added to the
  first under the id \<open>i\<close> with the text \<open>name entityType\<close>, its observation at
  position \<open>j\<close> to the second under the id \<open>i-j\<close>.
\<close>

definition entity_documents :: "knowledge_graph \<Rightarrow> index" where
  "entity_documents graph =
     map (\<lambda>(i, e). (NumId i, name e @ '' '' @ entityType e)) (enumerate_from0 (entities graph))"

definition observation_documents :: "knowledge_graph \<Rightarrow> index" where
  "observation_documents graph =
     concat (map (\<lambda>(i, e).
        map (\<lambda>(j, observation). (StrId (String_of_nat i @ ''-'' @ String_of_nat j), observation))
          (enumerate_from0 (observations e)))
       (enumerate_from0 (entities graph)))"

definition rebuildIndexes :: "knowledge_graph \<Rightarrow> state \<Rightarrow> state" where
  "rebuildIndexes graph st =
     st\<lparr>entityIndex := entity_documents graph, observationIndex := observation_documents graph\<rparr>"

definition emptyGraph :: knowledge_graph where
  "emptyGraph = \<lparr>entities = [], relations = []\<rparr>"

text \<open>\<open>item.type\<close> of a parsed line.\<close>

fun item_type :: "item \<Rightarrow> string option" where
  "item_type (EntityItem e) = e_type e"
| "item_type (RelationItem r) = r_type r"
| "item_type (OtherItem t) = t"

text \<open>
  One step of the \<open>reduce\<close> in \<open>loadGraph\<close>: an item of type \<open>entity\<close> is pushed to
  the entities and one of type \<open>relation\<close> to the relations, whole; any other item is
  skipped.
\<close>

definition push_item :: "knowledge_graph \<Rightarrow> item \<Rightarrow> error + knowledge_graph" where
  "push_item graph it =
     (if item_type it = Some ''entity'' then
        (case it of EntityItem e \<Rightarrow> Inr (graph\<lparr>entities := entities graph @ [e]\<rparr>)
                  | _ \<Rightarrow> Inl Ill_typed)
      else if item_type it = Some ''relation'' then
        (case it of RelationItem r \<Rightarrow> Inr (graph\<lparr>relations := relations graph @ [r]\<rparr>)
                  | _ \<Rightarrow> Inl Ill_typed)
      else Inr graph)"

fun reduce_lines :: "platform \<Rightarrow> string list \<Rightarrow> knowledge_graph \<Rightarrow> error + knowledge_graph" where
  "reduce_lines P [] graph = Inr graph"
| "reduce_lines P (line # ls) graph =
     (case JSON_parse P line of
        None \<Rightarrow> Inl SyntaxError
      | Some it \<Rightarrow>
          (case push_item graph it of
             Inl err \<Rightarrow> Inl err
           | Inr graph' \<Rightarrow> reduce_lines P ls graph'))"

text \<open>
  \<open>loadGraph\<close>. A missing file gives the empty graph; an error of \<open>JSON.parse\<close> is
  thrown on, before the indexes are touched.
\<close>

definition loadGraph :: "platform \<Rightarrow> state \<Rightarrow> state \<times> (error + knowledge_graph)" where
  "loadGraph P st =
     (case memory_file st of
        None \<Rightarrow> (rebuildIndexes emptyGraph st, Inr emptyGraph)
      | Some data \<Rightarrow>
          (let lines = filter (\<lambda>line. trim line \<noteq> []) (split_nl data) in
           case reduce_lines P lines emptyGraph of
             Inl err \<Rightarrow> (st, Inl err)
           | Inr graph \<Rightarrow> (rebuildIndexes graph st, Inr graph)))"

text \<open>
  \<open>{ type: "entity", ...e }\<close>: the spread comes second, so a \<open>type\<close> property of
  \<open>e\<close> itself overrides the literal one.
\<close>

definition entity_line :: "entity \<Rightarrow> item" where
  "entity_line e =
     EntityItem (e\<lparr>e_type := Some (case e_type e of None \<Rightarrow> ''entity'' | Some t \<Rightarrow> t)\<rparr>)"

definition relation_line :: "relation \<Rightarrow> item" where
  "relation_line r =
     RelationItem (r\<lparr>r_type := Some (case r_type r of None \<Rightarrow> ''relation'' | Some t \<Rightarrow> t)\<rparr>)"

definition saveGraph :: "platform \<Rightarrow> knowledge_graph \<Rightarrow> state \<Rightarrow> state" where
  "saveGraph P graph st =
     (let lines = map (\<lambda>e. JSON_stringify P (entity_line e)) (entities graph)
                @ map (\<lambda>r. JSON_stringify P (relation_line r)) (relations graph)
      in rebuildIndexes graph (st\<lparr>memory_file := Some (join_nl lines)\<rparr>))"

section \<open>The operations of the manager\<close>

definition createEntities ::
  "platform \<Rightarrow> entity list \<Rightarrow> state \<Rightarrow> state \<times> (error + entity list)" where
  "createEntities P es st =
     (case loadGraph P st of
        (st1, Inl err) \<Rightarrow> (st1, Inl err)
      | (st1, Inr graph) \<Rightarrow>
          (let newEntities =
                 filter (\<lambda>e. \<not> list_ex (\<lambda>existingEntity. name existingEntity = name e)
                                  (entities graph)) es;
               graph' = graph\<lparr>entities := entities graph @ newEntities\<rparr>
           in (saveGraph P graph' st1, Inr newEntities)))"

definition same_relation :: "relation \<Rightarrow> relation \<Rightarrow> bool" where
  "same_relation a b = (from' a = from' b \<and> to' a = to' b \<and> relationType a = relationType b)"

definition createRelations ::
  "platform \<Rightarrow> relation list \<Rightarrow> state \<Rightarrow> state \<times> (error + relation list)" where
  "createRelations P rs st =
     (case loadGraph P st of
        (st1, Inl err) \<Rightarrow> (st1, Inl err)
      | (st1, Inr graph) \<Rightarrow>
          (let newRelations =
                 filter (\<lambda>r. \<not> list_ex (\<lambda>existingRelation. same_relation existingRelation r)
                                  (relations graph)) rs;
               graph' = graph\<lparr>relations := relations graph @ newRelations\<rparr>
           in (saveGraph P graph' st1, Inr newRelations)))"

text \<open>
  \<open>graph.entities.find(e => e.name === n)\<close> gives the first entity of that name, and
  the code then changes that object in place: the model rewrites the first entity of
  the name.
\<close>

fun update_first :: "string \<Rightarrow> (entity \<Rightarrow> entity) \<Rightarrow> entity list \<Rightarrow> entity list" where
  "update_first n f [] = []"
| "update_first n f (e # es) = (if name e = n then f e # es else e # update_first n f es)"

record observation_request =
  entityName :: string
  contents :: "string list"

record observation_result =
  resultEntityName :: string
  addedObservations :: "string list"

text \<open>
  The \<open>map\<close> over the requests in \<open>addObservations\<close> (and in \<open>batchCreate\<close>): it
  throws at the first request whose entity is not found.
\<close>

fun add_each ::
  "observation_request list \<Rightarrow> knowledge_graph \<Rightarrow> error + (knowledge_graph \<times> observation_result list)" where
  "add_each [] graph = Inr (graph, [])"
| "add_each (o1 # os) graph =
     (case find (\<lambda>e. name e = entityName o1) (entities graph) of
        None \<Rightarrow> Inl (Error (''Entity with name '' @ entityName o1 @ '' not found''))
      | Some ent \<Rightarrow>
          (let newObservations = filter (\<lambda>content. content \<notin> set (observations ent)) (contents o1);
               graph' = graph\<lparr>entities :=
                  update_first (entityName o1)
                    (\<lambda>e. e\<lparr>observations := observations e @ newObservations\<rparr>) (entities graph)\<rparr>
           in case add_each os graph' of
                Inl err \<Rightarrow> Inl err
              | Inr (graph'', results) \<Rightarrow>
                  Inr (graph'', \<lparr>resultEntityName = entityName o1,
                                 addedObservations = newObservations\<rparr> # results)))"

definition addObservations ::
  "platform \<Rightarrow> observation_request list \<Rightarrow> state \<Rightarrow> state \<times> (error + observation_result list)" where
  "addObservations P os st =
     (case loadGraph P st of
        (st1, Inl err) \<Rightarrow> (st1, Inl err)
      | (st1, Inr graph) \<Rightarrow>
          (case add_each os graph of
             Inl err \<Rightarrow> (st1, Inl err)
           | Inr (graph', results) \<Rightarrow> (saveGraph P graph' st1, Inr results)))"

definition deleteEntities :: "platform \<Rightarrow> string list \<Rightarrow> state \<Rightarrow> state \<times> (error + unit)" where
  "deleteEntities P entityNames st =
     (case loadGraph P st of
        (st1, Inl err) \<Rightarrow> (st1, Inl err)
      | (st1, Inr graph) \<Rightarrow>
          (let graph1 = graph\<lparr>entities := filter (\<lambda>e. name e \<notin> set entityNames) (entities graph)\<rparr>;
               graph2 = graph1\<lparr>relations :=
                  filter (\<lambda>r. from' r \<notin> set entityNames \<and> to' r \<notin> set entityNames) (relations graph1)\<rparr>
           in (saveGraph P graph2 st1, Inr ())))"

record observation_deletion =
  deletionEntityName :: string
  deletedObservations :: "string list"

fun delete_each :: "observation_deletion list \<Rightarrow> knowledge_graph \<Rightarrow> knowledge_graph" where
  "delete_each [] graph = graph"
| "delete_each (d # ds) graph =
     delete_each ds
       (graph\<lparr>entities :=
          update_first (deletionEntityName d)
            (\<lambda>e. e\<lparr>observations := filter (\<lambda>ob. ob \<notin> set (deletedObservations d)) (observations e)\<rparr>)
            (entities graph)\<rparr>)"

definition deleteObservations ::
  "platform \<Rightarrow> observation_deletion list \<Rightarrow> state \<Rightarrow> state \<times> (error + unit)" where
  "deleteObservations P deletions st =
     (case loadGraph P st of
        (st1, Inl err) \<Rightarrow> (st1, Inl err)
      | (st1, Inr graph) \<Rightarrow> (saveGraph P (delete_each deletions graph) st1, Inr ()))"

definition deleteRelations :: "platform \<Rightarrow> relation list \<Rightarrow> state \<Rightarrow> state \<times> (error + unit)" where
  "deleteRelations P rs st =
     (case loadGraph P st of
        (st1, Inl err) \<Rightarrow> (st1, Inl err)
      | (st1, Inr graph) \<Rightarrow>
          (let graph' = graph\<lparr>relations :=
                 filter (\<lambda>r. \<not> list_ex (\<lambda>delRelation. same_relation r delRelation) rs) (relations graph)\<rparr>
           in (saveGraph P graph' st1, Inr ())))"

definition readGraph :: "platform \<Rightarrow> state \<Rightarrow> state \<times> (error + knowledge_graph)" where
  "readGraph P st = loadGraph P st"

text \<open>
  \<open>searchNodes\<close>. The graph is loaded first (which rebuilds the indexes); a query that
  is empty after \<open>trim\<close> gives the empty graph. Otherwise each index is asked for at
  most 100 ids. An id of the observation index is cut at its first \<open>-\<close> and read with
  \<open>parseInt\<close>; an id that is not a string has no \<open>split\<close> method, which is a
  \<open>TypeError\<close>. The entities at the matched positions are kept, and the relations
  between kept names.
\<close>

fun observation_entity_indexes :: "doc_id list \<Rightarrow> error + int list" where
  "observation_entity_indexes [] = Inr []"
| "observation_entity_indexes (NumId n # ids) = Inl TypeError"
| "observation_entity_indexes (StrId s # ids) =
     (case observation_entity_indexes ids of
        Inl err \<Rightarrow> Inl err
      | Inr ns \<Rightarrow>
          (case parseInt (takeWhile (\<lambda>c. c \<noteq> CHR ''-'') s) of
             None \<Rightarrow> Inr ns
           | Some n \<Rightarrow> Inr (n # ns)))"

definition induced_graph :: "knowledge_graph \<Rightarrow> entity list \<Rightarrow> knowledge_graph" where
  "induced_graph graph filteredEntities =
     (let filteredEntityNames = set (map name filteredEntities) in
      \<lparr>entities = filteredEntities,
       relations = filter (\<lambda>r. from' r \<in> filteredEntityNames \<and> to' r \<in> filteredEntityNames)
                     (relations graph)\<rparr>)"

definition searchNodes :: "platform \<Rightarrow> string \<Rightarrow> state \<Rightarrow> state \<times> (error + knowledge_graph)" where
  "searchNodes P query st =
     (case loadGraph P st of
        (st1, Inl err) \<Rightarrow> (st1, Inl err)
      | (st1, Inr graph) \<Rightarrow>
          if trim query = [] then (st1, Inr \<lparr>entities = [], relations = []\<rparr>)
          else
            (let entityResults = Index_search P (entityIndex st1) query 100;
                 observationResults = Index_search P (observationIndex st1) query 100
             in case observation_entity_indexes observationResults of
                  Inl err \<Rightarrow> (st1, Inl err)
                | Inr matchedObservationEntityIndexes \<Rightarrow>
                    (let filteredEntities =
                           map snd (filter (\<lambda>(i, e). NumId i \<in> set entityResults
                                              \<or> int i \<in> set matchedObservationEntityIndexes)
                                      (enumerate_from0 (entities graph)))
                     in (st1, Inr (induced_graph graph filteredEntities)))))"

definition openNodes :: "platform \<Rightarrow> string list \<Rightarrow> state \<Rightarrow> state \<times> (error + knowledge_graph)" where
  "openNodes P names st =
     (case loadGraph P st of
        (st1, Inl err) \<Rightarrow> (st1, Inl err)
      | (st1, Inr graph) \<Rightarrow>
          (st1, Inr (induced_graph graph (filter (\<lambda>e. name e \<in> set names) (entities graph)))))"

text \<open>
  \<open>batchCreate\<close>: entities, then relations, then observations, on one loaded graph,
  and one save. Each part is optional and skipped when empty. The entities returned
  are the objects pushed to the graph, so they show the observations added to them
  later in the same call.
\<close>

record batch_data =
  batch_entities :: "entity list option"
  batch_relations :: "relation list option"
  batch_observations :: "observation_request list option"

record batch_result =
  createdEntities :: "entity list"
  createdRelations :: "relation list"
  batchAddedObservations :: "observation_result list"

definition batchCreate :: "platform \<Rightarrow> batch_data \<Rightarrow> state \<Rightarrow> state \<times> (error + batch_result)" where
  "batchCreate P data st =
     (case loadGraph P st of
        (st1, Inl err) \<Rightarrow> (st1, Inl err)
      | (st1, Inr graph) \<Rightarrow>
          (let newEntities =
                 (case batch_entities data of
                    None \<Rightarrow> []
                  | Some es \<Rightarrow>
                      filter (\<lambda>e. \<not> list_ex (\<lambda>existingEntity. name existingEntity = name e)
                                       (entities graph)) es);
               graph1 = graph\<lparr>entities := entities graph @ newEntities\<rparr>;
               newRelations =
                 (case batch_relations data of
                    None \<Rightarrow> []
                  | Some rs \<Rightarrow>
                      filter (\<lambda>r. \<not> list_ex (\<lambda>existingRelation. same_relation existingRelation r)
                                       (relations graph1)) rs);
               graph2 = graph1\<lparr>relations := relations graph1 @ newRelations\<rparr>
           in case add_each (case batch_observations data of None \<Rightarrow> [] | Some os \<Rightarrow> os) graph2 of
                Inl err \<Rightarrow> (st1, Inl err)
              | Inr (graph3, results) \<Rightarrow>
                  (saveGraph P graph3 st1,
                   Inr \<lparr>createdEntities = drop (length (entities graph)) (entities graph3),
                        createdRelations = newRelations,
                        batchAddedObservations = results\<rparr>)))"

section \<open>The mutations as one step\<close>

text \<open>
  The seven mutating tools of the server, and what one call does to the state:
  \<open>None\<close> when the call completed, the error when it threw.
\<close>

datatype mutation =
    CreateEntities "entity list"
  | CreateRelations "relation list"
  | AddObservations "observation_request list"
  | DeleteEntities "string list"
  | DeleteObservations "observation_deletion list"
  | DeleteRelations "relation list"
  | BatchCreate batch_data

definition outcome :: "state \<times> (error + 'a) \<Rightarrow> state \<times> error option" where
  "outcome p = (fst p, case snd p of Inl err \<Rightarrow> Some err | Inr _ \<Rightarrow> None)"

fun mutate :: "platform \<Rightarrow> mutation \<Rightarrow> state \<Rightarrow> state \<times> error option" where
  "mutate P (CreateEntities es) st = outcome (createEntities P es st)"
| "mutate P (CreateRelations rs) st = outcome (createRelations P rs st)"
| "mutate P (AddObservations os) st = outcome (addObservations P os st)"
| "mutate P (DeleteEntities ns) st = outcome (deleteEntities P ns st)"
| "mutate P (DeleteObservations ds) st = outcome (deleteObservations P ds st)"
| "mutate P (DeleteRelations rs) st = outcome (deleteRelations P rs st)"
| "mutate P (BatchCreate data) st = outcome (batchCreate P data st)"

text \<open>The entities and the relations that a call asks to create.\<close>

fun requested_entities :: "mutation \<Rightarrow> entity list" where
  "requested_entities (CreateEntities es) = es"
| "requested_entities (BatchCreate data) = (case batch_entities data of None \<Rightarrow> [] | Some es \<Rightarrow> es)"
| "requested_entities _ = []"

fun requested_relations :: "mutation \<Rightarrow> relation list" where
  "requested_relations (CreateRelations rs) = rs"
| "requested_relations (BatchCreate data) = (case batch_relations data of None \<Rightarrow> [] | Some rs \<Rightarrow> rs)"
| "requested_relations _ = []"

text \<open>
  \<open>s.includes(q)\<close> on strings, and the entities of a search result (none when the
  search threw).
\<close>

fun String_includes :: "string \<Rightarrow> string \<Rightarrow> bool" where
  "String_includes [] q = (q = [])"
| "String_includes (c # s) q = (take (length q) (c # s) = q \<or> String_includes s q)"

definition found_entities :: "state \<times> (error + knowledge_graph) \<Rightarrow> entity list" where
  "found_entities p = (case snd p of Inl err \<Rightarrow> [] | Inr result \<Rightarrow> entities result)"

section \<open>Numbers\<close>

text \<open>
  A JavaScript number is an IEEE 754 binary64 value. The model has the finite values, as
  the rational numbers they denote, and \<open>NaN\<close>; the infinities do not arise in the
  score computation. Every arithmetic result is rounded to the nearest value with a
  significand of 53 bits, ties to even; the magnitudes here are far from overflow and
  underflow, so the exponent is not bounded.
\<close>

datatype double = NaN | Finite rat

text \<open>The number of binary digits of a positive integer.\<close>

function bit_length :: "int \<Rightarrow> nat" where
  "bit_length n = (if n \<le> 0 then 0 else Suc (bit_length (n div 2)))"
  by pat_completeness auto
termination
  by (relation "measure nat") auto

declare bit_length.simps [simp del]

definition pow2 :: "int \<Rightarrow> rat" where
  "pow2 e = (if 0 \<le> e then 2 ^ nat e else 1 / 2 ^ nat (- e))"

text \<open>The exponent \<open>e\<close> of a positive number \<open>x\<close>: \<open>2^e \<le> x < 2^(e+1)\<close>.\<close>

definition exponent :: "rat \<Rightarrow> int" where
  "exponent x =
     (if 1 \<le> x then int (bit_length \<lfloor>x\<rfloor>) - 1 else - int (bit_length (\<lceil>1 / x\<rceil> - 1)))"

definition round_pos :: "rat \<Rightarrow> rat" where
  "round_pos x =
     (let ulp = pow2 (exponent x - 52);
          q = x / ulp;
          n = \<lfloor>q\<rfloor>;
          r = q - of_int n
      in of_int (if r < 1 / 2 then n else if 1 / 2 < r then n + 1
                 else if even n then n else n + 1) * ulp)"

definition round64 :: "rat \<Rightarrow> rat" where
  "round64 x = (if x = 0 then 0 else if 0 < x then round_pos x else - round_pos (- x))"

text \<open>
  The integer square root, and the square root rounded once: the root lies between
  \<open>s / 2^k\<close> and \<open>(s + 1) / 2^k\<close>, an interval with no rounding boundary inside.
\<close>

function isqrt :: "int \<Rightarrow> int" where
  "isqrt n =
     (if n \<le> 0 then 0
      else let r = 2 * isqrt (n div 4) in if (r + 1) * (r + 1) \<le> n then r + 1 else r)"
  by pat_completeness auto
termination
  by (relation "measure nat") auto

declare isqrt.simps [simp del]

definition sqrt64 :: "rat \<Rightarrow> rat" where
  "sqrt64 x =
     (if x \<le> 0 then 0
      else
        (let k = 64 + nat (- exponent x);
             m = \<lfloor>x * 4 ^ k\<rfloor>;
             s = isqrt m
         in if of_int m = x * 4 ^ k \<and> s * s = m then round64 (of_int s / 2 ^ k)
            else round64 ((2 * of_int s + 1) / 2 ^ (k + 1))))"

text \<open>
  The operators \<open>+\<close>, \<open>-\<close>, \<open>*\<close>, \<open>/\<close>, \<open>Math.sqrt\<close>, \<open>>=\<close> and
  \<open>>\<close>. \<open>NaN\<close> is contagious and compares false. A division by zero would be an
  infinity; it does not occur below (a length or a norm that divides is positive).
\<close>

definition fadd :: "double \<Rightarrow> double \<Rightarrow> double" where
  "fadd a b = (case (a, b) of (Finite x, Finite y) \<Rightarrow> Finite (round64 (x + y)) | _ \<Rightarrow> NaN)"

definition fsub :: "double \<Rightarrow> double \<Rightarrow> double" where
  "fsub a b = (case (a, b) of (Finite x, Finite y) \<Rightarrow> Finite (round64 (x - y)) | _ \<Rightarrow> NaN)"

definition fmul :: "double \<Rightarrow> double \<Rightarrow> double" where
  "fmul a b = (case (a, b) of (Finite x, Finite y) \<Rightarrow> Finite (round64 (x * y)) | _ \<Rightarrow> NaN)"

definition fdiv :: "double \<Rightarrow> double \<Rightarrow> double" where
  "fdiv a b =
     (case (a, b) of
        (Finite x, Finite y) \<Rightarrow> if y = 0 then NaN else Finite (round64 (x / y))
      | _ \<Rightarrow> NaN)"

definition fsqrt :: "double \<Rightarrow> double" where
  "fsqrt a = (case a of Finite x \<Rightarrow> if x < 0 then NaN else Finite (sqrt64 x) | NaN \<Rightarrow> NaN)"

definition fge :: "double \<Rightarrow> double \<Rightarrow> bool" where
  "fge a b = (case (a, b) of (Finite x, Finite y) \<Rightarrow> y \<le> x | _ \<Rightarrow> False)"

definition fgt :: "double \<Rightarrow> double \<Rightarrow> bool" where
  "fgt a b = (case (a, b) of (Finite x, Finite y) \<Rightarrow> y < x | _ \<Rightarrow> False)"

text \<open>A decimal literal of the source, and an integer count, as numbers.\<close>

definition literal :: "rat \<Rightarrow> double" where
  "literal x = Finite (round64 x)"

definition of_count :: "nat \<Rightarrow> double" where
  "of_count n = Finite (of_nat n)"

section \<open>The similarity engine\<close>

text \<open>
  \<open>toLowerCase\<close> on the characters below 256, \<open>split(/\\s+/)\<close> (which keeps an
  empty first or last piece) and \<open>join(' ')\<close>.
\<close>

definition toLowerCase_char :: "char \<Rightarrow> char" where
  "toLowerCase_char c =
     (let k = (of_char c :: nat) in
      if (65 \<le> k \<and> k \<le> 90) \<or> (192 \<le> k \<and> k \<le> 222 \<and> k \<noteq> 215) then char_of (k + 32) else c)"

definition toLowerCase :: "string \<Rightarrow> string" where
  "toLowerCase s = map toLowerCase_char s"

function split_spaces_from :: "string \<Rightarrow> string \<Rightarrow> string list" where
  "split_spaces_from cur [] = [cur]"
| "split_spaces_from cur (c # cs) =
     (if is_space c then cur # split_spaces_from [] (dropWhile is_space cs)
      else split_spaces_from (cur @ [c]) cs)"
  by pat_completeness auto
termination
  by (relation "measure (\<lambda>(cur, s). length s)")
     (auto simp: length_dropWhile_le le_imp_less_Suc)

definition split_spaces :: "string \<Rightarrow> string list" where
  "split_spaces s = split_spaces_from [] s"

fun join_spaces :: "string list \<Rightarrow> string" where
  "join_spaces [] = []"
| "join_spaces [w] = w"
| "join_spaces (w # ws) = w @ CHR '' '' # join_spaces ws"

text \<open>
  \<open>calculateSimilarity\<close>: the matrix of edit distances, filled row by row; the cell is
  the minimum of the cell above plus one, the cell to the left plus one, and the
  diagonal cell plus the cost, where letters are compared in lower case.
\<close>

fun fill_row :: "char \<Rightarrow> string \<Rightarrow> nat list \<Rightarrow> nat \<Rightarrow> nat list" where
  "fill_row c (d # ds) (diag # up # prev) left =
     (let cost = (if toLowerCase_char c = toLowerCase_char d then 0 else 1);
          v = min (min (up + 1) (left + 1)) (diag + cost)
      in v # fill_row c ds (up # prev) v)"
| "fill_row c ds prev left = []"

fun fill_rows :: "string \<Rightarrow> string \<Rightarrow> nat \<Rightarrow> nat list \<Rightarrow> nat list" where
  "fill_rows [] str2 i prev = prev"
| "fill_rows (c # cs) str2 i prev = fill_rows cs str2 (Suc i) (i # fill_row c str2 prev i)"

definition levenshtein :: "string \<Rightarrow> string \<Rightarrow> nat" where
  "levenshtein str1 str2 = last (fill_rows str1 str2 1 [0..<Suc (length str2)])"

definition calculateSimilarity :: "string \<Rightarrow> string \<Rightarrow> double" where
  "calculateSimilarity str1 str2 =
     (if str1 = str2 then Finite 1
      else
        (let maxLen = max (length str1) (length str2) in
         if maxLen = 0 then Finite 1
         else fsub (Finite 1) (fdiv (of_count (levenshtein str1 str2)) (of_count maxLen))))"

text \<open>\<open>extractKeywords\<close>.\<close>

definition commonWords :: "string list" where
  "commonWords = [''the'', ''a'', ''an'', ''and'', ''or'', ''but'', ''in'', ''on'', ''at'', ''to'',
     ''for'', ''of'', ''with'', ''by'', ''is'', ''are'', ''was'', ''were'', ''be'', ''been'', ''have'',
     ''has'', ''had'', ''do'', ''does'', ''did'', ''will'', ''would'', ''could'', ''should'', ''may'',
     ''might'', ''must'', ''can'']"

definition extractKeywords :: "string \<Rightarrow> string list" where
  "extractKeywords text =
     filter (\<lambda>word. 2 < length word \<and> word \<notin> set commonWords) (split_spaces (toLowerCase text))"

text \<open>
  The term frequencies are kept in a plain object. Its keys come in the order of
  JavaScript: array indexes first, ascending, then the other keys as first inserted.
  A plain object inherits \<open>constructor\<close> and \<open>__proto__\<close>: the keyword
  \<open>constructor\<close> makes the count a string, and every norm and product with it is
  \<open>NaN\<close>; an assignment to \<open>__proto__\<close> of a string is ignored, so that keyword
  is never a key.
\<close>

definition decimal_value :: "string \<Rightarrow> int" where
  "decimal_value ds = foldl (\<lambda>a c. a * 10 + int (the (digit_val c))) 0 ds"

definition is_array_index :: "string \<Rightarrow> bool" where
  "is_array_index k =
     (k \<noteq> [] \<and> list_all (is_digit 10) k \<and> (k = ''0'' \<or> hd k \<noteq> CHR ''0'') \<and>
      decimal_value k \<le> 4294967294)"

fun insert_index :: "string \<Rightarrow> string list \<Rightarrow> string list" where
  "insert_index k [] = [k]"
| "insert_index k (x # xs) =
     (if decimal_value k < decimal_value x then k # x # xs else x # insert_index k xs)"

fun first_occurrences :: "string list \<Rightarrow> string list \<Rightarrow> string list" where
  "first_occurrences seen [] = []"
| "first_occurrences seen (w # ws) =
     (if w \<in> set seen then first_occurrences seen ws else w # first_occurrences (w # seen) ws)"

definition object_keys :: "string list \<Rightarrow> string list" where
  "object_keys ws =
     (let ks = first_occurrences [] ws in
      foldr insert_index (filter is_array_index ks) [] @ filter (\<lambda>k. \<not> is_array_index k) ks)"

definition term_frequency :: "string list \<Rightarrow> (string \<times> nat) list" where
  "term_frequency keywords =
     map (\<lambda>k. (k, count_list keywords k)) (object_keys (filter (\<lambda>w. w \<noteq> ''__proto__'') keywords))"

definition calculateTFIDFSimilarity :: "string \<Rightarrow> string \<Rightarrow> double" where
  "calculateTFIDFSimilarity str1 str2 =
     (let keywords1 = extractKeywords str1;
          keywords2 = extractKeywords str2
      in if keywords1 = [] \<and> keywords2 = [] then Finite 1
         else if keywords1 = [] \<or> keywords2 = [] then Finite 0
         else if ''constructor'' \<in> set keywords1 \<union> set keywords2 then NaN
         else
           (let tf1 = term_frequency keywords1;
                tf2 = term_frequency keywords2;
                norm1 = fsqrt (of_count (sum_list (map (\<lambda>(w, freq). freq * freq) tf1)));
                norm2 = fsqrt (of_count (sum_list (map (\<lambda>(w, freq). freq * freq) tf2)));
                allWords = first_occurrences [] (map fst tf1 @ map fst tf2)
            in foldl (\<lambda>dotProduct word.
                 (let tf1Norm = (case map_of tf1 word of Some freq \<Rightarrow> fdiv (of_count freq) norm1
                                 | None \<Rightarrow> Finite 0);
                      tf2Norm = (case map_of tf2 word of Some freq \<Rightarrow> fdiv (of_count freq) norm2
                                 | None \<Rightarrow> Finite 0)
                  in fadd dotProduct (fmul tf1Norm tf2Norm)))
                 (Finite 0) allWords))"

definition calculateSemanticSimilarity :: "string \<Rightarrow> string \<Rightarrow> double" where
  "calculateSemanticSimilarity str1 str2 =
     (let stringSim = calculateSimilarity str1 str2;
          tfidfSim = calculateTFIDFSimilarity str1 str2
      in fadd (fmul stringSim (literal (7 / 10))) (fmul tfidfSim (literal (3 / 10))))"

text \<open>
  \<open>normalizeEntityName\<close>: the first replace removes one of the prefixes with its
  underscore, the second one of the suffixes, both without regard to case; the third
  puts a space between a lower-case and an upper-case letter; then lower case.
\<close>

definition remove_prefix :: "string list \<Rightarrow> string \<Rightarrow> string" where
  "remove_prefix alternatives s =
     (case find (\<lambda>p. toLowerCase (take (Suc (length p)) s) = p @ ''_'') alternatives of
        None \<Rightarrow> s
      | Some p \<Rightarrow> drop (Suc (length p)) s)"

definition remove_suffix :: "string list \<Rightarrow> string \<Rightarrow> string" where
  "remove_suffix alternatives s =
     (case find (\<lambda>p. Suc (length p) \<le> length s \<and>
                     toLowerCase (drop (length s - Suc (length p)) s) = ''_'' @ p) alternatives of
        None \<Rightarrow> s
      | Some p \<Rightarrow> take (length s - Suc (length p)) s)"

definition is_lower_az :: "char \<Rightarrow> bool" where
  "is_lower_az c = (97 \<le> (of_char c :: nat) \<and> (of_char c :: nat) \<le> 122)"

definition is_upper_AZ :: "char \<Rightarrow> bool" where
  "is_upper_AZ c = (65 \<le> (of_char c :: nat) \<and> (of_char c :: nat) \<le> 90)"

fun split_camelCase :: "string \<Rightarrow> string" where
  "split_camelCase (a # b # s) =
     (if is_lower_az a \<and> is_upper_AZ b then a # CHR '' '' # split_camelCase (b # s)
      else a # split_camelCase (b # s))"
| "split_camelCase s = s"

definition normalizeEntityName :: "string \<Rightarrow> string" where
  "normalizeEntityName n =
     toLowerCase (split_camelCase
       (remove_suffix [''getter'', ''setter'', ''handler'', ''manager'', ''service'', ''util'', ''utils'']
         (remove_prefix [''get'', ''set'', ''is'', ''has'', ''can'', ''should'', ''will'', ''did'',
                         ''does'', ''do''] n)))"

text \<open>
  \<open>applySynonyms\<close>. The map is a plain object too: looking up \<open>constructor\<close> or
  \<open>__proto__\<close> gives an inherited value, which \<open>join\<close> turns into a string.
\<close>

definition synonymMap :: "string \<Rightarrow> string option" where
  "synonymMap word =
     map_of [(''create'', ''make''), (''make'', ''create''), (''delete'', ''remove''),
             (''remove'', ''delete''), (''find'', ''search''), (''search'', ''find''),
             (''update'', ''modify''), (''modify'', ''update''), (''get'', ''fetch''),
             (''fetch'', ''get''),
             (''constructor'', ''function Object() { [native code] }''),
             (''__proto__'', ''[object Object]'')] word"

definition applySynonyms :: "string \<Rightarrow> string" where
  "applySynonyms text =
     join_spaces (map (\<lambda>word. case synonymMap word of Some s \<Rightarrow> s | None \<Rightarrow> word)
       (split_spaces (toLowerCase text)))"

section \<open>Duplicate entities\<close>

text \<open>
  The options of \<open>findDuplicates\<close>, and their merge: the defaults, overridden by
  the preset (\<open>standard\<close> when none is given), overridden by the options given.
\<close>

datatype preset = strict | standard | loose

record options =
  entityNameSimilarityThreshold :: "double option"
  considerEntityType :: "bool option"
  observationSimilarityThreshold :: "double option"
  checkExistingGraph :: "bool option"
  semanticMatchingEnabled :: "bool option"
  preset :: "preset option"

record merged_options =
  merged_entityNameSimilarityThreshold :: double
  merged_considerEntityType :: bool
  merged_semanticMatchingEnabled :: bool

definition mergedOptions :: "options \<Rightarrow> merged_options" where
  "mergedOptions opts =
     (let p = (case preset opts of None \<Rightarrow> standard | Some p \<Rightarrow> p);
          presetThreshold = (case p of strict \<Rightarrow> literal (95 / 100) | standard \<Rightarrow> literal (8 / 10)
                             | loose \<Rightarrow> literal (6 / 10));
          presetSemantic = (case p of strict \<Rightarrow> False | standard \<Rightarrow> False | loose \<Rightarrow> True)
      in \<lparr>merged_entityNameSimilarityThreshold =
            (case entityNameSimilarityThreshold opts of None \<Rightarrow> presetThreshold | Some t \<Rightarrow> t),
          merged_considerEntityType =
            (case considerEntityType opts of None \<Rightarrow> True | Some b \<Rightarrow> b),
          merged_semanticMatchingEnabled =
            (case semanticMatchingEnabled opts of None \<Rightarrow> presetSemantic | Some b \<Rightarrow> b)\<rparr>)"

text \<open>
  One entry of \<open>duplicateEntities\<close>. The text \<open>details\<close> is kept as its kind and
  the number that it prints (the name similarity times 100).
\<close>

datatype details = Exact_details | Semantic_details double | Fuzzy_details double

record duplicate_entity =
  dup_entity :: entity
  existingEntity :: entity
  similarityScore :: double
  matchType :: string
  dup_details :: details
  duplicateType :: string

text \<open>The body of the two nested loops over the candidate and the stored entities.\<close>

definition compare_entities :: "merged_options \<Rightarrow> entity \<Rightarrow> entity \<Rightarrow> duplicate_entity" where
  "compare_entities opts ent existing =
     (let nameSimilarity =
            (if merged_semanticMatchingEnabled opts
             then calculateSemanticSimilarity (applySynonyms (normalizeEntityName (name ent)))
                    (applySynonyms (normalizeEntityName (name existing)))
             else calculateSimilarity (name ent) (name existing));
          typeMatch =
            (if merged_considerEntityType opts
             then (if merged_semanticMatchingEnabled opts
                   then calculateSemanticSimilarity (entityType ent) (entityType existing)
                   else calculateSimilarity (entityType ent) (entityType existing))
             else Finite 1);
          percent = fmul nameSimilarity (Finite 100)
      in \<lparr>dup_entity = ent, existingEntity = existing,
          similarityScore = fadd (fmul nameSimilarity (literal (7 / 10))) (fmul typeMatch (literal (3 / 10))),
          matchType =
            (if name ent = name existing then ''exact''
             else if merged_semanticMatchingEnabled opts \<and> fgt nameSimilarity (literal (9 / 10))
             then ''semantic'' else ''fuzzy''),
          dup_details =
            (if name ent = name existing then Exact_details
             else if merged_semanticMatchingEnabled opts \<and> fgt nameSimilarity (literal (9 / 10))
             then Semantic_details percent else Fuzzy_details percent),
          duplicateType =
            (if name ent = name existing \<and> entityType ent = entityType existing
             then ''structural'' else ''semantic'')\<rparr>)"

text \<open>
  The list \<open>duplicateEntities\<close> of the report of \<open>findDuplicates\<close>: for every
  candidate, in order, and every stored entity, in order, the entry is pushed when its
  score is greater than or equal to the merged threshold. The other parts of the
  report (relations, observations, duplicates inside the stored graph, statistics) are
  computed after it and are not modelled.
\<close>

definition duplicateEntities_of ::
  "merged_options \<Rightarrow> entity list \<Rightarrow> knowledge_graph \<Rightarrow> duplicate_entity list" where
  "duplicateEntities_of opts es graph =
     concat (map (\<lambda>ent.
        filter (\<lambda>d. fge (similarityScore d) (merged_entityNameSimilarityThreshold opts))
          (map (compare_entities opts ent) (entities graph))) es)"

definition findDuplicates_entities ::
  "platform \<Rightarrow> entity list option \<Rightarrow> options \<Rightarrow> state \<Rightarrow> state \<times> (error + duplicate_entity list)" where
  "findDuplicates_entities P data_entities opts st =
     (case loadGraph P st of
        (st1, Inl err) \<Rightarrow> (st1, Inl err)
      | (st1, Inr graph) \<Rightarrow>
          (st1, Inr (duplicateEntities_of (mergedOptions opts)
                       (case data_entities of None \<Rightarrow> [] | Some es \<Rightarrow> es) graph)))"


section \<open>What the platform is assumed to do\<close>

text \<open>
  \<open>JSON.parse\<close> reads back what \<open>JSON.stringify\<close> wrote for an entity or a relation
  object, and the text written for one object has no line feed in it and is not blank.
\<close>

definition json_codec :: "platform \<Rightarrow> bool" where
  "json_codec P =
     ((\<forall>e. JSON_parse P (JSON_stringify P (EntityItem e)) = Some (EntityItem e)) \<and>
      (\<forall>r. JSON_parse P (JSON_stringify P (RelationItem r)) = Some (RelationItem r)) \<and>
      (\<forall>it. CHR 10 \<notin> set (JSON_stringify P it)) \<and>
      (\<forall>it. trim (JSON_stringify P it) \<noteq> []))"

text \<open>
  A graph whose objects have no \<open>type\<close> property but the one \<open>saveGraph\<close> would
  write; the same graph as it is read back from the file; and the property of a graph that
  every object carries its discriminator.
\<close>

definition well_tagged :: "knowledge_graph \<Rightarrow> bool" where
  "well_tagged graph =
     (list_all (\<lambda>e. e_type e = None \<or> e_type e = Some ''entity'') (entities graph) \<and>
      list_all (\<lambda>r. r_type r = None \<or> r_type r = Some ''relation'') (relations graph))"

definition as_stored :: "knowledge_graph \<Rightarrow> knowledge_graph" where
  "as_stored graph =
     \<lparr>entities = map (\<lambda>e. e\<lparr>e_type := Some ''entity''\<rparr>) (entities graph),
      relations = map (\<lambda>r. r\<lparr>r_type := Some ''relation''\<rparr>) (relations graph)\<rparr>"

definition loaded :: "knowledge_graph \<Rightarrow> bool" where
  "loaded graph =
     (list_all (\<lambda>e. e_type e = Some ''entity'') (entities graph) \<and>
      list_all (\<lambda>r. r_type r = Some ''relation'') (relations graph))"

text \<open>
  A search gives at most \<open>limit\<close> ids, each the id of a document that was added.
\<close>

definition index_contract :: "platform \<Rightarrow> bool" where
  "index_contract P =
     (\<forall>idx query limit.
        length (Index_search P idx query limit) \<le> limit \<and>
        set (Index_search P idx query limit) \<subseteq> fst ` set idx)"

section \<open>A reference platform\<close>

text \<open>
  One platform that meets the assumptions, used to run the operations on concrete
  inputs. Its \<open>JSON.stringify\<close> writes the compact text of the object, members in the
  order \<open>type\<close>, then the declared fields; strings are escaped as JSON requires
  (quote, backslash, and the control characters). Its \<open>JSON.parse\<close> reads that
  compact form and nothing else. Its index keeps the documents in the order they were
  added and matches a document when every word of the query begins a word of its
  text, letter case aside, which is what the option \<open>tokenize: "forward"\<close> asks of
  FlexSearch.
\<close>

definition hex_digit :: "nat \<Rightarrow> char" where
  "hex_digit d = (if d < 10 then char_of (48 + d) else char_of (87 + d))"

definition escape_char :: "char \<Rightarrow> string" where
  "escape_char c =
     (let k = (of_char c :: nat) in
      if c = CHR 0x22 then [CHR 0x5C, CHR 0x22]
      else if c = CHR 0x5C then [CHR 0x5C, CHR 0x5C]
      else if k = 8 then [CHR 0x5C, CHR ''b'']
      else if k = 9 then [CHR 0x5C, CHR ''t'']
      else if k = 10 then [CHR 0x5C, CHR ''n'']
      else if k = 12 then [CHR 0x5C, CHR ''f'']
      else if k = 13 then [CHR 0x5C, CHR ''r'']
      else if k < 32 then [CHR 0x5C, CHR ''u'', CHR ''0'', CHR ''0'', hex_digit (k div 16), hex_digit (k mod 16)]
      else [c])"

definition quote :: "string \<Rightarrow> string" where
  "quote s = CHR 0x22 # concat (map escape_char s) @ [CHR 0x22]"

fun comma_separated :: "string list \<Rightarrow> string" where
  "comma_separated [] = []"
| "comma_separated [x] = x"
| "comma_separated (x # xs) = x @ CHR '','' # comma_separated xs"

definition string_array :: "string list \<Rightarrow> string" where
  "string_array xs = ''['' @ comma_separated (map quote xs) @ '']''"

definition member :: "string \<Rightarrow> string \<Rightarrow> string" where
  "member k v = quote k @ '':'' @ v"

fun JSON_stringify_ref :: "item \<Rightarrow> string" where
  "JSON_stringify_ref (EntityItem e) =
     ''{'' @ (case e_type e of None \<Rightarrow> [] | Some t \<Rightarrow> member ''type'' (quote t) @ '','')
       @ member ''name'' (quote (name e)) @ '',''
       @ member ''entityType'' (quote (entityType e)) @ '',''
       @ member ''observations'' (string_array (observations e)) @ ''}''"
| "JSON_stringify_ref (RelationItem r) =
     ''{'' @ (case r_type r of None \<Rightarrow> [] | Some t \<Rightarrow> member ''type'' (quote t) @ '','')
       @ member ''from'' (quote (from' r)) @ '',''
       @ member ''to'' (quote (to' r)) @ '',''
       @ member ''relationType'' (quote (relationType r)) @ ''}''"
| "JSON_stringify_ref (OtherItem t) =
     ''{'' @ (case t of None \<Rightarrow> [] | Some t \<Rightarrow> member ''type'' (quote t)) @ ''}''"

definition unescape :: "char \<Rightarrow> char option" where
  "unescape e =
     (if e = CHR 0x22 \<or> e = CHR 0x5C \<or> e = CHR ''/'' then Some e
      else if e = CHR ''b'' then Some (char_of (8 :: nat))
      else if e = CHR ''t'' then Some (char_of (9 :: nat))
      else if e = CHR ''n'' then Some (char_of (10 :: nat))
      else if e = CHR ''f'' then Some (char_of (12 :: nat))
      else if e = CHR ''r'' then Some (char_of (13 :: nat))
      else None)"

definition hex4 :: "char \<Rightarrow> char \<Rightarrow> char \<Rightarrow> char \<Rightarrow> char option" where
  "hex4 a b c d =
     (if list_all (is_digit 16) [a, b, c, d] \<and> digits_value 16 [a, b, c, d] < 256
      then Some (char_of (digits_value 16 [a, b, c, d])) else None)"

fun string_body :: "string \<Rightarrow> (string \<times> string) option" where
  "string_body [] = None"
| "string_body (c # cs) =
     (if c = CHR 0x22 then Some ([], cs)
      else if c = CHR 0x5C then
        (case cs of
           [] \<Rightarrow> None
         | e # cs1 \<Rightarrow>
             if e = CHR ''u'' then
               (case cs1 of
                  a # b # c2 # d # cs2 \<Rightarrow>
                    (case hex4 a b c2 d of
                       None \<Rightarrow> None
                     | Some ch \<Rightarrow> map_option (\<lambda>(s, r). (ch # s, r)) (string_body cs2))
                | _ \<Rightarrow> None)
             else
               (case unescape e of
                  None \<Rightarrow> None
                | Some ch \<Rightarrow> map_option (\<lambda>(s, r). (ch # s, r)) (string_body cs1)))
      else if (of_char c :: nat) < 32 then None
      else map_option (\<lambda>(s, r). (c # s, r)) (string_body cs))"

lemma string_body_shorter: "string_body s = Some (x, r) \<Longrightarrow> length r < length s"
proof (induction s arbitrary: x r rule: string_body.induct)
  case 1
  then show ?case by simp
next
  case (2 c cs)
  then show ?case
    by (fastforce split: if_splits list.splits option.splits)
qed

function string_items :: "string \<Rightarrow> (string list \<times> string) option" where
  "string_items s =
     (case s of
        [] \<Rightarrow> None
      | c # cs \<Rightarrow>
          if c \<noteq> CHR 0x22 then None
          else
            (case string_body cs of
               None \<Rightarrow> None
             | Some (x, r) \<Rightarrow>
                 (case r of
                    [] \<Rightarrow> None
                  | d # r1 \<Rightarrow>
                      if d = CHR '','' then map_option (\<lambda>(xs, r2). (x # xs, r2)) (string_items r1)
                      else if d = CHR '']'' then Some ([x], r1)
                      else None)))"
  by pat_completeness auto

termination
  by (relation "measure length") (auto dest: string_body_shorter)

declare string_items.simps [simp del]

definition parse_string_array :: "string \<Rightarrow> (string list \<times> string) option" where
  "parse_string_array s =
     (case s of
        a # b # r \<Rightarrow>
          if a = CHR ''['' \<and> b = CHR '']'' then Some ([], r)
          else if a = CHR ''['' then string_items (b # r)
          else None
      | _ \<Rightarrow> None)"

definition expect :: "string \<Rightarrow> string \<Rightarrow> string option" where
  "expect p s = (if take (length p) s = p then Some (drop (length p) s) else None)"

definition string_member :: "string \<Rightarrow> string \<Rightarrow> (string \<times> string) option" where
  "string_member k s =
     (case expect (member k [CHR 0x22]) s of None \<Rightarrow> None | Some r \<Rightarrow> string_body r)"

definition entity_members :: "string option \<Rightarrow> string \<Rightarrow> item option" where
  "entity_members t s =
     (case string_member ''name'' s of None \<Rightarrow> None | Some (n, r1) \<Rightarrow>
      case expect '','' r1 of None \<Rightarrow> None | Some r2 \<Rightarrow>
      case string_member ''entityType'' r2 of None \<Rightarrow> None | Some (et, r3) \<Rightarrow>
      case expect ('','' @ member ''observations'' []) r3 of None \<Rightarrow> None | Some r4 \<Rightarrow>
      case parse_string_array r4 of None \<Rightarrow> None | Some (obs, r5) \<Rightarrow>
      if r5 = ''}'' then Some (EntityItem \<lparr>e_type = t, name = n, entityType = et, observations = obs\<rparr>)
      else None)"

definition relation_members :: "string option \<Rightarrow> string \<Rightarrow> item option" where
  "relation_members t s =
     (case string_member ''from'' s of None \<Rightarrow> None | Some (f, r1) \<Rightarrow>
      case expect '','' r1 of None \<Rightarrow> None | Some r2 \<Rightarrow>
      case string_member ''to'' r2 of None \<Rightarrow> None | Some (t2, r3) \<Rightarrow>
      case expect '','' r3 of None \<Rightarrow> None | Some r4 \<Rightarrow>
      case string_member ''relationType'' r4 of None \<Rightarrow> None | Some (rt, r5) \<Rightarrow>
      if r5 = ''}'' then Some (RelationItem \<lparr>r_type = t, from' = f, to' = t2, relationType = rt\<rparr>)
      else None)"

definition members :: "string option \<Rightarrow> string \<Rightarrow> item option" where
  "members t s =
     (case entity_members t s of Some it \<Rightarrow> Some it | None \<Rightarrow> relation_members t s)"

definition JSON_parse_ref :: "string \<Rightarrow> item option" where
  "JSON_parse_ref s =
     (case expect ''{'' s of
        None \<Rightarrow> None
      | Some r \<Rightarrow>
          (case string_member ''type'' r of
             Some (t, r1) \<Rightarrow>
               if r1 = ''}'' then Some (OtherItem (Some t))
               else (case expect '','' r1 of None \<Rightarrow> None | Some r2 \<Rightarrow> members (Some t) r2)
           | None \<Rightarrow> if r = ''}'' then Some (OtherItem None) else members None r))"

definition lower_char :: "char \<Rightarrow> char" where
  "lower_char c =
     (let k = (of_char c :: nat) in if 65 \<le> k \<and> k \<le> 90 then char_of (k + 32) else c)"

definition word_char :: "char \<Rightarrow> bool" where
  "word_char c =
     (let k = (of_char c :: nat) in
      (48 \<le> k \<and> k \<le> 57) \<or> (65 \<le> k \<and> k \<le> 90) \<or> (97 \<le> k \<and> k \<le> 122) \<or> 128 \<le> k)"

fun words_from :: "string \<Rightarrow> string \<Rightarrow> string list" where
  "words_from cur [] = (if cur = [] then [] else [cur])"
| "words_from cur (c # cs) =
     (if word_char c then words_from (cur @ [c]) cs
      else (if cur = [] then [] else [cur]) @ words_from [] cs)"

definition document_matches :: "string \<Rightarrow> string \<Rightarrow> bool" where
  "document_matches query text =
     (let qs = words_from [] (map lower_char query);
          ds = words_from [] (map lower_char text)
      in qs \<noteq> [] \<and> list_all (\<lambda>q. list_ex (\<lambda>d. take (length q) d = q) ds) qs)"

definition Index_search_ref :: "index \<Rightarrow> string \<Rightarrow> nat \<Rightarrow> doc_id list" where
  "Index_search_ref idx query limit =
     take limit (map fst (filter (\<lambda>(i, text). document_matches query text) idx))"

definition reference :: platform where
  "reference = \<lparr>JSON_stringify = JSON_stringify_ref, JSON_parse = JSON_parse_ref,
                 Index_search = Index_search_ref\<rparr>"

section \<open>Example data\<close>

definition alice :: entity where
  "alice = \<lparr>e_type = None, name = ''Alice'', entityType = ''person'', observations = [''likes tea'']\<rparr>"

definition bob :: entity where
  "bob = \<lparr>e_type = None, name = ''Bob'', entityType = ''person'', observations = []\<rparr>"

definition carol :: entity where
  "carol = \<lparr>e_type = None, name = ''Carol'', entityType = ''person'', observations = []\<rparr>"

definition alice_knows_bob :: relation where
  "alice_knows_bob = \<lparr>r_type = None, from' = ''Alice'', to' = ''Bob'', relationType = ''knows''\<rparr>"

definition no_file :: state where
  "no_file = \<lparr>memory_file = None, entityIndex = [], observationIndex = []\<rparr>"

definition example_lines :: "string list" where
  \<open>example_lines =
     [''{"type":"entity","name":"Alice","entityType":"person","observations":["likes tea"]}'',
      ''{"type":"entity","name":"Bob","entityType":"person","observations":[]}'',
      ''{"type":"relation","from":"Alice","to":"Bob","relationType":"knows"}'']\<close>

definition example_state :: state where
  "example_state = \<lparr>memory_file = Some (join_nl example_lines), entityIndex = [], observationIndex = []\<rparr>"

definition example_graph :: knowledge_graph where
  "example_graph =
     \<lparr>entities = [alice\<lparr>e_type := Some ''entity''\<rparr>, bob\<lparr>e_type := Some ''entity''\<rparr>],
      relations = [alice_knows_bob\<lparr>r_type := Some ''relation''\<rparr>]\<rparr>"

text \<open>
  A graph of 101 entities whose names all begin with \<open>n\<close>; only the last one has an
  observation. A graph of 201 entities that all have the observation \<open>likes tea\<close>.
\<close>

definition crowd_member :: "nat \<Rightarrow> entity" where
  "crowd_member i = \<lparr>e_type = Some ''entity'', name = ''n'' @ String_of_nat i, entityType = ''t'',
                      observations = []\<rparr>"

definition straggler :: entity where
  "straggler = \<lparr>e_type = Some ''entity'', name = ''n'' @ String_of_nat 100, entityType = ''t'',
                  observations = [''n'']\<rparr>"

definition crowd_graph :: knowledge_graph where
  "crowd_graph = \<lparr>entities = map crowd_member [0..<100] @ [straggler], relations = []\<rparr>"

definition crowd_state :: state where
  "crowd_state = saveGraph reference crowd_graph no_file"

definition tea_drinker :: "nat \<Rightarrow> entity" where
  "tea_drinker i = \<lparr>e_type = Some ''entity'', name = ''e'' @ String_of_nat i, entityType = ''person'',
                     observations = [''likes tea'']\<rparr>"

definition tea_graph :: knowledge_graph where
  "tea_graph = \<lparr>entities = map tea_drinker [0..<201], relations = []\<rparr>"

definition tea_state :: state where
  "tea_state = saveGraph reference tea_graph no_file"

text \<open>A store that holds the entity \<open>Alice Smith\<close>, and options that set nothing.\<close>

definition no_options :: options where
  "no_options = \<lparr>entityNameSimilarityThreshold = None, considerEntityType = None,
     observationSimilarityThreshold = None, checkExistingGraph = None,
     semanticMatchingEnabled = None, preset = None\<rparr>"

definition alice_smith :: entity where
  "alice_smith = \<lparr>e_type = None, name = ''Alice Smith'', entityType = ''person'', observations = []\<rparr>"

definition smith_state :: state where
  \<open>smith_state = \<lparr>memory_file =
      Some ''{"type":"entity","name":"Alice Smith","entityType":"person","observations":[]}'',
     entityIndex = [], observationIndex = []\<rparr>\<close>

section \<open>Lemmas\<close>

subsection \<open>The store and the search\<close>

lemma split_nl_nonempty: "split_nl s \<noteq> []"
  by (induction s) (auto split: list.splits)

lemma split_nl_no_newline: "CHR 10 \<notin> set l \<Longrightarrow> split_nl (l @ CHR 10 # s) = l # split_nl s"
  by (induction l) (auto split: list.splits)

lemma split_nl_single: "CHR 10 \<notin> set l \<Longrightarrow> split_nl l = [l]"
  by (induction l) (auto split: list.splits)

lemma split_join_nl:
  "ls \<noteq> [] \<Longrightarrow> \<forall>l \<in> set ls. CHR 10 \<notin> set l \<Longrightarrow> split_nl (join_nl ls) = ls"
proof (induction ls rule: join_nl.induct)
  case 1
  then show ?case by simp
next
  case (2 l)
  then show ?case by (simp add: split_nl_single)
next
  case (3 l v va)
  then show ?case by (simp add: split_nl_no_newline)
qed

lemma trim_Nil [simp]: "trim [] = []"
  by (simp add: trim_def)

lemma lines_of_saved:
  assumes "\<forall>l \<in> set ls. CHR 10 \<notin> set l" and "\<forall>l \<in> set ls. trim l \<noteq> []"
  shows "filter (\<lambda>line. trim line \<noteq> []) (split_nl (join_nl ls)) = ls"
proof (cases "ls = []")
  case True
  then show ?thesis by simp
next
  case False
  with assms(1) have "split_nl (join_nl ls) = ls" by (simp add: split_join_nl)
  with assms(2) show ?thesis by (simp add: filter_id_conv)
qed

lemma push_item_loaded: "loaded g \<Longrightarrow> push_item g it = Inr g' \<Longrightarrow> loaded g'"
  by (cases it) (auto simp: push_item_def loaded_def split: if_splits)

lemma reduce_lines_loaded: "loaded g \<Longrightarrow> reduce_lines P ls g = Inr g' \<Longrightarrow> loaded g'"
proof (induction ls arbitrary: g)
  case Nil
  then show ?case by simp
next
  case (Cons l ls)
  then show ?case
    by (auto split: option.splits sum.splits dest: push_item_loaded)
qed

lemma loadGraph_loaded: "loadGraph P st = (st', Inr g) \<Longrightarrow> loaded g"
  by (auto simp: loadGraph_def emptyGraph_def loaded_def Let_def
           split: option.splits sum.splits dest!: reduce_lines_loaded [rotated])

lemma loaded_well_tagged: "loaded g \<Longrightarrow> well_tagged g"
  by (auto simp: loaded_def well_tagged_def list_all_iff)

lemma loaded_as_stored: "loaded g \<Longrightarrow> as_stored g = g"
  by (cases g) (auto simp: loaded_def as_stored_def list_all_iff map_idI)

lemma reduce_entity_lines:
  assumes "json_codec P"
    and "list_all (\<lambda>e. e_type e = None \<or> e_type e = Some ''entity'') es"
  shows "reduce_lines P (map (\<lambda>e. JSON_stringify P (entity_line e)) es @ ls) g =
         reduce_lines P ls (g\<lparr>entities := entities g @ map (\<lambda>e. e\<lparr>e_type := Some ''entity''\<rparr>) es\<rparr>)"
  using assms(2)
proof (induction es arbitrary: g)
  case Nil
  then show ?case by simp
next
  case (Cons e es)
  from assms(1) have p: "JSON_parse P (JSON_stringify P (entity_line e)) = Some (entity_line e)"
    by (simp add: json_codec_def entity_line_def)
  from Cons.prems have "push_item g (entity_line e) =
      Inr (g\<lparr>entities := entities g @ [e\<lparr>e_type := Some ''entity''\<rparr>]\<rparr>)"
    by (auto simp: push_item_def entity_line_def)
  with p Cons show ?case by simp
qed

lemma reduce_relation_lines:
  assumes "json_codec P"
    and "list_all (\<lambda>r. r_type r = None \<or> r_type r = Some ''relation'') rs"
  shows "reduce_lines P (map (\<lambda>r. JSON_stringify P (relation_line r)) rs @ ls) g =
         reduce_lines P ls (g\<lparr>relations := relations g @ map (\<lambda>r. r\<lparr>r_type := Some ''relation''\<rparr>) rs\<rparr>)"
  using assms(2)
proof (induction rs arbitrary: g)
  case Nil
  then show ?case by simp
next
  case (Cons r rs)
  from assms(1) have p: "JSON_parse P (JSON_stringify P (relation_line r)) = Some (relation_line r)"
    by (simp add: json_codec_def relation_line_def)
  from Cons.prems have "push_item g (relation_line r) =
      Inr (g\<lparr>relations := relations g @ [r\<lparr>r_type := Some ''relation''\<rparr>]\<rparr>)"
    by (auto simp: push_item_def relation_line_def)
  with p Cons show ?case by simp
qed

lemma entity_documents_as_stored [simp]: "entity_documents (as_stored g) = entity_documents g"
  by (simp add: entity_documents_def as_stored_def enumerate_from0_def zip_map2 case_prod_unfold)

lemma observation_documents_as_stored [simp]:
  "observation_documents (as_stored g) = observation_documents g"
  by (simp add: observation_documents_def as_stored_def enumerate_from0_def zip_map2
        case_prod_unfold comp_def)

lemma load_after_save:
  assumes "json_codec P" and "well_tagged g"
  shows "loadGraph P (saveGraph P g st) = (saveGraph P g st, Inr (as_stored g))"
proof -
  let ?ls = "map (\<lambda>e. JSON_stringify P (entity_line e)) (entities g)
           @ map (\<lambda>r. JSON_stringify P (relation_line r)) (relations g)"
  from assms(1) have "\<forall>l \<in> set ?ls. CHR 10 \<notin> set l" "\<forall>l \<in> set ?ls. trim l \<noteq> []"
    by (auto simp: json_codec_def)
  then have f: "filter (\<lambda>line. trim line \<noteq> []) (split_nl (join_nl ?ls)) = ?ls"
    by (rule lines_of_saved)
  from assms have "reduce_lines P ?ls emptyGraph = Inr (as_stored g)"
    using reduce_entity_lines [of P "entities g" _ emptyGraph]
      reduce_relation_lines [of P "relations g" "[]"]
    by (simp add: well_tagged_def emptyGraph_def as_stored_def)
  with f show ?thesis
    by (simp add: loadGraph_def saveGraph_def Let_def rebuildIndexes_def)
qed

lemma loadGraph_file: "loadGraph P st = (st', r) \<Longrightarrow> memory_file st' = memory_file st"
  by (auto simp: loadGraph_def rebuildIndexes_def Let_def split: option.splits sum.splits)

lemma loadGraph_again:
  "loadGraph P st = (st', Inr g) \<Longrightarrow> loadGraph P st' = (st', Inr g)"
  by (auto simp: loadGraph_def rebuildIndexes_def Let_def split: option.splits sum.splits)

lemma trim_empty_iff: "trim s = [] \<longleftrightarrow> list_all is_space s"
proof
  assume t: "trim s = []"
  show "list_all is_space s"
  proof (rule ccontr)
    assume "\<not> list_all is_space s"
    then have ne: "dropWhile is_space s \<noteq> []"
      by (simp add: dropWhile_eq_Nil_conv list_all_iff)
    then have "\<not> is_space (hd (dropWhile is_space s))" by (rule hd_dropWhile)
    moreover from ne have "hd (dropWhile is_space s) \<in> set (dropWhile is_space s)" by simp
    moreover from t have "\<forall>x \<in> set (dropWhile is_space s). is_space x"
      by (simp add: trim_def dropWhile_eq_Nil_conv)
    ultimately show False by blast
  qed
next
  assume "list_all is_space s"
  then have d: "dropWhile is_space s = []" by (induction s) auto
  show "trim s = []" unfolding trim_def d by simp
qed

lemma loaded_filter_entities:
  "loaded g \<Longrightarrow> loaded (g\<lparr>entities := filter p (entities g)\<rparr>)"
  by (simp add: loaded_def list_all_iff)

lemma loaded_filter_relations:
  "loaded g \<Longrightarrow> loaded (g\<lparr>relations := filter p (relations g)\<rparr>)"
  by (simp add: loaded_def list_all_iff)

lemma update_first_names:
  "(\<And>e. name (f e) = name e) \<Longrightarrow> map name (update_first n f es) = map name es"
  by (induction es) auto

lemma add_each_first_missing:
  assumes "find (\<lambda>o1. entityName o1 \<notin> set (map name (entities graph))) os = Some missing"
  shows "add_each os graph = Inl (Error (''Entity with name '' @ entityName missing @ '' not found''))"
  using assms
proof (induction os arbitrary: graph)
  case Nil
  then show ?case by simp
next
  case (Cons o1 os)
  show ?case
  proof (cases "entityName o1 \<in> set (map name (entities graph))")
    case False
    then have "find (\<lambda>e. name e = entityName o1) (entities graph) = None"
      by (force simp: find_None_iff image_iff)
    with False Cons.prems show ?thesis by simp
  next
    case True
    then obtain ent where f: "find (\<lambda>e. name e = entityName o1) (entities graph) = Some ent"
      by (cases "find (\<lambda>e. name e = entityName o1) (entities graph)") (auto simp: find_None_iff)
    define graph' where "graph' = graph\<lparr>entities :=
        update_first (entityName o1)
          (\<lambda>e. e\<lparr>observations := observations e @
              filter (\<lambda>content. content \<notin> set (observations ent)) (contents o1)\<rparr>)
          (entities graph)\<rparr>"
    have "map name (entities graph') = map name (entities graph)"
      by (simp add: graph'_def update_first_names)
    with True Cons.prems
    have "find (\<lambda>o1. entityName o1 \<notin> set (map name (entities graph'))) os = Some missing"
      by simp
    then have "add_each os graph' =
        Inl (Error (''Entity with name '' @ entityName missing @ '' not found''))"
      by (rule Cons.IH)
    with f show ?thesis by (simp add: graph'_def Let_def)
  qed
qed

lemma digit_val_digit_char: "d < 10 \<Longrightarrow> digit_val (digit_char d) = Some d"
  by (simp add: digit_val_def digit_char_def)

lemma is_digit_digit_char: "d < 10 \<Longrightarrow> is_digit 10 (digit_char d)"
  by (simp add: is_digit_def digit_val_digit_char)

lemma String_of_nat_digits: "c \<in> set (String_of_nat n) \<Longrightarrow> is_digit 10 c"
proof (induction n rule: String_of_nat.induct)
  case (1 n)
  show ?case
  proof (cases "n < 10")
    case True
    with "1.prems" show ?thesis
      by (simp add: String_of_nat.simps [of n] is_digit_digit_char)
  next
    case False
    with "1.prems" "1.IH" show ?thesis
      by (auto simp: String_of_nat.simps [of n] is_digit_digit_char)
  qed
qed

lemma String_of_nat_not_Nil: "String_of_nat n \<noteq> []"
  by (subst String_of_nat.simps) simp

lemma digits_value_snoc:
  "digits_value r (ds @ [c]) = digits_value r ds * r + the (digit_val c)"
  by (simp add: digits_value_def)

lemma digits_value_String_of_nat: "digits_value 10 (String_of_nat n) = n"
proof (induction n rule: String_of_nat.induct)
  case (1 n)
  show ?case
  proof (cases "n < 10")
    case True
    then show ?thesis
      by (simp add: String_of_nat.simps [of n] digits_value_def digit_val_digit_char)
  next
    case False
    with "1.IH" show ?thesis
      by (simp add: String_of_nat.simps [of n] digits_value_snoc digit_val_digit_char)
  qed
qed

lemma is_digit_10_facts:
  assumes "is_digit 10 c"
  shows "\<not> is_space c" "c \<noteq> CHR ''-''" "c \<noteq> CHR ''+''" "c \<noteq> CHR ''x''" "c \<noteq> CHR ''X''"
  using assms
  by (auto simp: is_digit_def digit_val_def is_space_def Let_def split: if_splits option.splits)

lemma parseInt_String_of_nat: "parseInt (String_of_nat n) = Some (int n)"
proof -
  obtain c cs where s: "String_of_nat n = c # cs"
    using String_of_nat_not_Nil [of n] by (cases "String_of_nat n") auto
  have all: "\<forall>x \<in> set (c # cs). is_digit 10 x"
    using String_of_nat_digits [of _ n] s by auto
  then have c: "\<not> is_space c" "c \<noteq> CHR ''-''" "c \<noteq> CHR ''+''"
    by (auto dest: is_digit_10_facts)
  have nohex: "\<not> (case c # cs of a # b # _ \<Rightarrow> a = CHR ''0'' \<and> (b = CHR ''x'' \<or> b = CHR ''X'') | _ \<Rightarrow> False)"
    using all by (cases cs) (auto dest: is_digit_10_facts)
  have tw: "takeWhile (is_digit 10) (c # cs) = c # cs"
    using all by (simp add: takeWhile_eq_all_conv)
  have "digits_value 10 (c # cs) = n"
    using digits_value_String_of_nat [of n] s by simp
  with c nohex tw show ?thesis
    unfolding parseInt_def s by (simp add: Let_def)
qed

lemma takeWhile_id_prefix:
  "takeWhile (\<lambda>c. c \<noteq> CHR ''-'') (String_of_nat i @ ''-'' @ rest) = String_of_nat i"
proof -
  have "\<forall>x \<in> set (String_of_nat i). x \<noteq> CHR ''-''"
    using String_of_nat_digits is_digit_10_facts(2) by blast
  then show ?thesis by (simp add: takeWhile_append2 [where ys = "CHR ''-'' # rest"] takeWhile_tail)
qed

lemma loadGraph_indexes:
  "loadGraph P st = (st1, Inr graph) \<Longrightarrow>
   entityIndex st1 = entity_documents graph \<and> observationIndex st1 = observation_documents graph"
  by (auto simp: loadGraph_def rebuildIndexes_def Let_def split: option.splits sum.splits)

lemma observation_ids_are_strings:
  "x \<in> fst ` set (observation_documents graph) \<Longrightarrow> \<exists>s. x = StrId s"
  by (auto simp: observation_documents_def enumerate_from0_def)

lemma observation_entity_indexes_strings:
  assumes "\<forall>x \<in> set ids. \<exists>s. x = StrId s"
  shows "\<exists>ns. observation_entity_indexes ids = Inr ns \<and> length ns \<le> length ids \<and>
          (\<forall>s n. StrId s \<in> set ids \<and> parseInt (takeWhile (\<lambda>c. c \<noteq> CHR ''-'') s) = Some n
              \<longrightarrow> n \<in> set ns)"
  using assms
proof (induction ids)
  case Nil
  then show ?case by simp
next
  case (Cons x ids)
  then obtain s where x: "x = StrId s" by auto
  from Cons obtain ns where ns: "observation_entity_indexes ids = Inr ns" "length ns \<le> length ids"
    "\<forall>s n. StrId s \<in> set ids \<and> parseInt (takeWhile (\<lambda>c. c \<noteq> CHR ''-'') s) = Some n
              \<longrightarrow> n \<in> set ns"
    by auto
  show ?case
  proof (cases "parseInt (takeWhile (\<lambda>c. c \<noteq> CHR ''-'') s)")
    case None
    with x ns show ?thesis by auto
  next
    case (Some n)
    with x ns show ?thesis by auto
  qed
qed

lemma length_filter_enumerate:
  "length (filter (\<lambda>(i, e). Q i) (enumerate_from0 xs)) = card {i. i < length xs \<and> Q i}"
proof -
  have "length (filter (\<lambda>(i, e). Q i) (enumerate_from0 xs)) =
        length (map fst (filter (Q \<circ> fst) (enumerate_from0 xs)))"
    by (simp add: comp_def case_prod_unfold)
  also have "\<dots> = length (filter Q [0..<length xs])"
    by (simp add: filter_map [symmetric] enumerate_from0_def)
  also have "\<dots> = card {i. i < length xs \<and> Q i}"
    by (simp add: length_filter_conv_card cong: conj_cong)
  finally show ?thesis .
qed

lemma card_matched_positions:
  "card {i. i < n \<and> (NumId i \<in> set ers \<or> int i \<in> set ois)} \<le> length ers + length ois"
proof -
  have "{i. i < n \<and> (NumId i \<in> set ers \<or> int i \<in> set ois)} \<subseteq>
        (NumId -` set ers) \<union> (int -` set ois)"
    by auto
  moreover have fin: "finite (NumId -` set ers)" "finite (int -` set ois)"
    by (auto intro!: finite_vimageI simp: inj_on_def)
  ultimately have "card {i. i < n \<and> (NumId i \<in> set ers \<or> int i \<in> set ois)} \<le>
      card ((NumId -` set ers) \<union> (int -` set ois))"
    by (intro card_mono) auto
  also have "\<dots> \<le> card (NumId -` set ers) + card (int -` set ois)"
    by (rule card_Un_le)
  also have "card (NumId -` set ers) \<le> card (set ers)"
    using card_vimage_inj_on_le [of NumId UNIV "set ers"] by (simp add: inj_on_def)
  also have "card (int -` set ois) \<le> card (set ois)"
    using card_vimage_inj_on_le [of int UNIV "set ois"] by (simp add: inj_on_def)
  finally show ?thesis
    using card_length [of ers] card_length [of ois] by linarith
qed

lemma searchNodes_length_bound:
  assumes "index_contract P" and "searchNodes P query st = (st', Inr result)"
  shows "length (entities result) \<le> 200"
proof -
  from assms(2) obtain graph where l: "loadGraph P st = (st', Inr graph)"
    by (auto simp: searchNodes_def Let_def split: prod.splits sum.splits if_splits)
  show ?thesis
  proof (cases "trim query = []")
    case True
    with l assms(2) show ?thesis by (auto simp: searchNodes_def)
  next
    case False
    define ers where "ers = Index_search P (entityIndex st') query 100"
    define ors where "ors = Index_search P (observationIndex st') query 100"
    from assms(1) have le: "length ers \<le> 100" "length ors \<le> 100"
      by (simp_all add: index_contract_def ers_def ors_def)
    from l False assms(2) obtain ois where
      ois: "observation_entity_indexes ors = Inr ois" and
      res: "result = induced_graph graph
              (map snd (filter (\<lambda>(i, e). NumId i \<in> set ers \<or> int i \<in> set ois)
                 (enumerate_from0 (entities graph))))"
      by (auto simp: searchNodes_def Let_def ers_def ors_def split: sum.splits)
    have "length ois \<le> length ors"
      using ois
    proof (induction ors arbitrary: ois)
      case Nil
      then show ?case by simp
    next
      case (Cons x xs)
      then show ?case
        by (cases x) (auto split: sum.splits option.splits)
    qed
    with le have "length ers + length ois \<le> 200" by simp
    moreover have "length (entities result) =
        card {i. i < length (entities graph) \<and> (NumId i \<in> set ers \<or> int i \<in> set ois)}"
      by (simp add: res induced_graph_def Let_def length_filter_enumerate)
    ultimately show ?thesis
      using card_matched_positions [of "length (entities graph)" ers ois] by linarith
  qed
qed

lemma nth_in_filtered:
  assumes "i < length xs" and "Q i"
  shows "xs ! i \<in> set (map snd (filter (\<lambda>(i, e). Q i) (enumerate_from0 xs)))"
proof -
  from assms(1) have "zip [0..<length xs] xs ! i = (i, xs ! i)" by simp
  moreover from assms(1) have "zip [0..<length xs] xs ! i \<in> set (zip [0..<length xs] xs)"
    by (intro nth_mem) simp
  ultimately have "(i, xs ! i) \<in> set (enumerate_from0 xs)"
    by (simp add: enumerate_from0_def)
  with assms(2) show ?thesis by force
qed

lemma saveGraph_as_stored:
  assumes "well_tagged G"
  shows "saveGraph P (as_stored G) (saveGraph P G st) = saveGraph P G st"
proof -
  have e: "entity_line (e\<lparr>e_type := Some ''entity''\<rparr>) = entity_line e"
    if "e_type e = None \<or> e_type e = Some ''entity''" for e
    using that by (auto simp: entity_line_def)
  have r: "relation_line (r\<lparr>r_type := Some ''relation''\<rparr>) = relation_line r"
    if "r_type r = None \<or> r_type r = Some ''relation''" for r
    using that by (auto simp: relation_line_def)
  from assms show ?thesis
    by (simp add: saveGraph_def as_stored_def well_tagged_def list_all_iff rebuildIndexes_def
          e r comp_def entity_documents_as_stored [unfolded as_stored_def]
          observation_documents_as_stored [unfolded as_stored_def] cong: map_cong)
qed

lemma pair_of_snd: "snd p = r \<Longrightarrow> p = (fst p, r)"
  by (cases p) simp

lemma names_as_stored [simp]: "map name (entities (as_stored g)) = map name (entities g)"
  by (simp add: as_stored_def comp_def)

lemma stored_distinct:
  assumes "json_codec P" and "well_tagged g" and "distinct (map name (entities g))"
  shows "\<exists>graph'. loadGraph P (saveGraph P g s) = (saveGraph P g s, Inr graph') \<and>
           distinct (map name (entities graph'))"
  using load_after_save [OF assms(1,2), of s] assms(3) by simp

lemma well_tagged_cong:
  "map e_type (entities g') = map e_type (entities g) \<Longrightarrow> relations g' = relations g \<Longrightarrow>
   well_tagged g \<Longrightarrow> well_tagged g'"
proof -
  have "well_tagged h \<longleftrightarrow>
      list_all (\<lambda>t. t = None \<or> t = Some ''entity'') (map e_type (entities h)) \<and>
      list_all (\<lambda>r. r_type r = None \<or> r_type r = Some ''relation'') (relations h)" for h
    by (simp add: well_tagged_def list_all_iff)
  then show "map e_type (entities g') = map e_type (entities g) \<Longrightarrow> relations g' = relations g \<Longrightarrow>
   well_tagged g \<Longrightarrow> well_tagged g'"
    by simp
qed

lemma update_first_e_type:
  "(\<And>e. e_type (f e) = e_type e) \<Longrightarrow> map e_type (update_first n f es) = map e_type es"
  by (induction es) auto

lemma add_each_Inr:
  "add_each os g = Inr (g', rs) \<Longrightarrow>
   map name (entities g') = map name (entities g) \<and>
   map e_type (entities g') = map e_type (entities g) \<and> relations g' = relations g"
proof (induction os arbitrary: g rs)
  case Nil
  then show ?case by simp
next
  case (Cons o1 os)
  from Cons.prems obtain ent where f: "find (\<lambda>e. name e = entityName o1) (entities g) = Some ent"
    by (auto split: option.splits)
  define g1 where "g1 = g\<lparr>entities :=
        update_first (entityName o1)
          (\<lambda>e. e\<lparr>observations := observations e @
              filter (\<lambda>content. content \<notin> set (observations ent)) (contents o1)\<rparr>)
          (entities g)\<rparr>"
  from Cons.prems f obtain rs' where "add_each os g1 = Inr (g', rs')"
    by (auto simp: Let_def g1_def split: sum.splits)
  then have "map name (entities g') = map name (entities g1) \<and>
     map e_type (entities g') = map e_type (entities g1) \<and> relations g' = relations g1"
    by (rule Cons.IH)
  then show ?case
    by (simp add: g1_def update_first_names update_first_e_type)
qed

lemma delete_each_keeps:
  "map name (entities (delete_each ds g)) = map name (entities g) \<and>
   map e_type (entities (delete_each ds g)) = map e_type (entities g) \<and>
   relations (delete_each ds g) = relations g"
  by (induction ds arbitrary: g) (simp_all add: update_first_names update_first_e_type)

lemma list_ex_name:
  "list_ex (\<lambda>existingEntity. name existingEntity = name e) xs \<longleftrightarrow> name e \<in> set (map name xs)"
  by (force simp: list_ex_iff image_iff)

lemma distinct_names_append:
  assumes "distinct (map name xs)"
    and "distinct (map name (filter (\<lambda>e. name e \<notin> set (map name xs)) es))"
  shows "distinct (map name (xs @ filter (\<lambda>e. name e \<notin> set (map name xs)) es))"
  using assms by (force simp: image_iff)

lemma outcome_None: "outcome p = (st', None) \<longleftrightarrow> (\<exists>r. p = (st', Inr r))"
  by (cases p) (auto simp: outcome_def split: sum.splits)

lemma loaded_facts:
  assumes "loaded g"
  shows "list_all (\<lambda>e. e_type e = None \<or> e_type e = Some ''entity'') (entities g)"
    and "list_all (\<lambda>r. r_type r = None \<or> r_type r = Some ''relation'') (relations g)"
  using assms by (simp_all add: loaded_def list_all_iff)

lemma saved_createEntities:
  assumes "loadGraph P st = (st0, Inr graph)" and "createEntities P es st = (st', Inr r)"
  shows "st' = saveGraph P (graph\<lparr>entities := entities graph @
        filter (\<lambda>e. name e \<notin> set (map name (entities graph))) es\<rparr>) st0"
  using assms by (auto simp: createEntities_def Let_def list_ex_name)

lemma saved_createRelations:
  assumes "loadGraph P st = (st0, Inr graph)" and "createRelations P rs st = (st', Inr r)"
  shows "st' = saveGraph P (graph\<lparr>relations := relations graph @
        filter (\<lambda>r. \<not> list_ex (\<lambda>existingRelation. same_relation existingRelation r)
                        (relations graph)) rs\<rparr>) st0"
  using assms by (auto simp: createRelations_def Let_def)

lemma saved_addObservations:
  assumes "loadGraph P st = (st0, Inr graph)" and "addObservations P os st = (st', Inr r)"
  shows "\<exists>g. add_each os graph = Inr (g, r) \<and> st' = saveGraph P g st0"
proof (cases "add_each os graph")
  case (Inl err)
  with assms show ?thesis by (simp add: addObservations_def)
next
  case (Inr p)
  with assms show ?thesis by (cases p) (simp add: addObservations_def)
qed

lemma saved_deleteEntities:
  assumes "loadGraph P st = (st0, Inr graph)" and "deleteEntities P ns st = (st', Inr r)"
  shows "st' = saveGraph P (graph\<lparr>entities := filter (\<lambda>e. name e \<notin> set ns) (entities graph),
       relations := filter (\<lambda>r. from' r \<notin> set ns \<and> to' r \<notin> set ns) (relations graph)\<rparr>) st0"
  using assms by (simp add: deleteEntities_def Let_def)

lemma saved_deleteObservations:
  assumes "loadGraph P st = (st0, Inr graph)" and "deleteObservations P ds st = (st', Inr r)"
  shows "st' = saveGraph P (delete_each ds graph) st0"
  using assms by (simp add: deleteObservations_def)

lemma saved_deleteRelations:
  assumes "loadGraph P st = (st0, Inr graph)" and "deleteRelations P rs st = (st', Inr r)"
  shows "st' = saveGraph P (graph\<lparr>relations :=
       filter (\<lambda>r. \<not> list_ex (\<lambda>delRelation. same_relation r delRelation) rs) (relations graph)\<rparr>) st0"
  using assms by (simp add: deleteRelations_def Let_def)

lemma saved_batchCreate:
  assumes "loadGraph P st = (st0, Inr graph)" and "batchCreate P data st = (st', Inr r)"
  shows "\<exists>g res. add_each (case batch_observations data of None \<Rightarrow> [] | Some os \<Rightarrow> os)
            (graph\<lparr>entities := entities graph @
                 filter (\<lambda>e. name e \<notin> set (map name (entities graph)))
                   (case batch_entities data of None \<Rightarrow> [] | Some es \<Rightarrow> es),
               relations := relations graph @
                 filter (\<lambda>r. \<not> list_ex (\<lambda>existingRelation. same_relation existingRelation r)
                                 (relations graph))
                   (case batch_relations data of None \<Rightarrow> [] | Some rs \<Rightarrow> rs)\<rparr>) = Inr (g, res) \<and>
          st' = saveGraph P g st0"
proof -
  obtain es where es: "(case batch_entities data of None \<Rightarrow> [] | Some es \<Rightarrow> es) = es" by simp
  obtain rs where rs: "(case batch_relations data of None \<Rightarrow> [] | Some rs \<Rightarrow> rs) = rs" by simp
  obtain os where os: "(case batch_observations data of None \<Rightarrow> [] | Some os \<Rightarrow> os) = os" by simp
  define g2 where "g2 = graph\<lparr>entities := entities graph @
                 filter (\<lambda>e. name e \<notin> set (map name (entities graph))) es,
               relations := relations graph @
                 filter (\<lambda>r. \<not> list_ex (\<lambda>existingRelation. same_relation existingRelation r)
                                 (relations graph)) rs\<rparr>"
  have e1: "(case batch_entities data of None \<Rightarrow> []
        | Some es \<Rightarrow> filter (\<lambda>e. \<not> list_ex (\<lambda>existingEntity. name existingEntity = name e)
                                       (entities graph)) es) =
        filter (\<lambda>e. name e \<notin> set (map name (entities graph))) es"
    using es by (auto simp: list_ex_name split: option.splits)
  have r1: "(case batch_relations data of None \<Rightarrow> []
        | Some rs \<Rightarrow> filter (\<lambda>r. \<not> list_ex (\<lambda>existingRelation. same_relation existingRelation r)
                                       (relations (graph\<lparr>entities := xs\<rparr>))) rs) =
        filter (\<lambda>r. \<not> list_ex (\<lambda>existingRelation. same_relation existingRelation r)
                        (relations graph)) rs" for xs
    using rs by (auto split: option.splits)
  have b: "batchCreate P data st =
      (case add_each os g2 of
         Inl err \<Rightarrow> (st0, Inl err)
       | Inr (graph3, results) \<Rightarrow>
           (saveGraph P graph3 st0,
            Inr \<lparr>createdEntities = drop (length (entities graph)) (entities graph3),
                 createdRelations = filter (\<lambda>r. \<not> list_ex (\<lambda>existingRelation.
                     same_relation existingRelation r) (relations graph)) rs,
                 batchAddedObservations = results\<rparr>))"
    unfolding batchCreate_def assms(1) prod.case sum.case Let_def e1 r1 os
    by (simp add: g2_def)
  show ?thesis
  proof (cases "add_each os g2")
    case (Inl err)
    with b assms(2) show ?thesis by simp
  next
    case (Inr p)
    with b assms(2) show ?thesis
      unfolding es rs os g2_def [symmetric] by (cases p) auto
  qed
qed

lemma searchNodes_succeeds:
  assumes "index_contract P" and "loadGraph P st = (st1, Inr graph)"
  shows "\<exists>result. searchNodes P query st = (st1, Inr result)"
proof -
  define ors where "ors = Index_search P (observationIndex st1) query 100"
  from assms(1) have sub: "set ors \<subseteq> fst ` set (observationIndex st1)"
    by (simp add: index_contract_def ors_def)
  have "\<forall>x \<in> set ors. \<exists>s. x = StrId s"
  proof
    fix x
    assume "x \<in> set ors"
    with sub have "x \<in> fst ` set (observationIndex st1)" by blast
    then have "x \<in> fst ` set (observation_documents graph)"
      using loadGraph_indexes [OF assms(2)] by simp
    then show "\<exists>s. x = StrId s" by (rule observation_ids_are_strings)
  qed
  then obtain ois where "observation_entity_indexes ors = Inr ois"
    using observation_entity_indexes_strings [of ors] by blast
  with assms(2) show ?thesis
    by (simp add: searchNodes_def Let_def ors_def)
qed

lemma String_of_nat_inj:
  assumes "String_of_nat i = String_of_nat j"
  shows "i = j"
proof -
  from assms have "parseInt (String_of_nat i) = parseInt (String_of_nat j)" by (rule arg_cong)
  then have "Some (int i) = Some (int j)" by (simp only: parseInt_String_of_nat)
  then show ?thesis by simp
qed

lemma enumerate_from0_snoc:
  "enumerate_from0 (xs @ [y]) = enumerate_from0 xs @ [(length xs, y)]"
  by (simp add: enumerate_from0_def)

lemma map_fst_entity_documents:
  "map fst (entity_documents g) = map NumId [0..<length (entities g)]"
  by (auto intro!: nth_equalityI simp: entity_documents_def enumerate_from0_def)

subsection \<open>The reference platform meets the assumptions\<close>

lemma digit_val_hex_digit: "d < 16 \<Longrightarrow> digit_val (hex_digit d) = Some d"
  by (auto simp: digit_val_def hex_digit_def Let_def)

lemma hex4_escape:
  assumes "(of_char c :: nat) < 32"
  shows "hex4 (CHR ''0'') (CHR ''0'') (hex_digit (of_char c div 16)) (hex_digit (of_char c mod 16)) = Some c"
proof -
  have a: "of_char c div 16 < (16::nat)" using assms by simp
  have b: "of_char c mod 16 < (16::nat)" by simp
  have z: "digit_val (CHR ''0'') = Some 0" by (simp add: digit_val_def)
  have "digits_value 16 [CHR ''0'', CHR ''0'', hex_digit (of_char c div 16), hex_digit (of_char c mod 16)]
        = of_char c"
    by (simp add: digits_value_def z digit_val_hex_digit [OF a] digit_val_hex_digit [OF b])
  moreover have "(of_char c :: nat) < 256" using assms by simp
  ultimately show ?thesis
    using a b
    by (simp add: hex4_def is_digit_def z digit_val_hex_digit [OF a] digit_val_hex_digit [OF b])
qed

lemma string_body_escape:
  "string_body (escape_char c @ rest) = map_option (\<lambda>(s, r). (c # s, r)) (string_body rest)"
proof -
  consider "c = CHR 0x22" | "c = CHR 0x5C"
    | "c \<noteq> CHR 0x22" "c \<noteq> CHR 0x5C" "(of_char c :: nat) \<in> {8, 9, 10, 12, 13}"
    | "c \<noteq> CHR 0x22" "c \<noteq> CHR 0x5C" "(of_char c :: nat) \<notin> {8, 9, 10, 12, 13}" "(of_char c :: nat) < 32"
    | "c \<noteq> CHR 0x22" "c \<noteq> CHR 0x5C" "\<not> (of_char c :: nat) < 32"
    by fastforce
  then show ?thesis
  proof cases
    case 1
    then show ?thesis by (simp add: escape_char_def unescape_def)
  next
    case 2
    then show ?thesis by (simp add: escape_char_def unescape_def)
  next
    case 3
    have "c = char_of (of_char c :: nat)" by simp
    with 3(3) have "c = char_of (8::nat) \<or> c = char_of (9::nat) \<or> c = char_of (10::nat)
        \<or> c = char_of (12::nat) \<or> c = char_of (13::nat)"
      by (elim insertE emptyE) simp_all
    then show ?thesis
      by (elim disjE) (simp_all add: escape_char_def unescape_def Let_def)
  next
    case 4
    then show ?thesis
      by (simp add: escape_char_def Let_def hex4_escape)
  next
    case 5
    then show ?thesis
      by (auto simp: escape_char_def Let_def)
  qed
qed

lemma string_body_quote:
  "string_body (concat (map escape_char s) @ CHR 0x22 # rest) = Some (s, rest)"
  by (induction s) (simp_all add: string_body_escape)

lemma expect_append [simp]: "expect p (p @ r) = Some r"
  by (simp add: expect_def)

lemma string_member_member [simp]:
  "string_member k (member k (quote v) @ rest) = Some (v, rest)"
proof -
  have "member k (quote v) @ rest = member k [CHR 0x22] @ (concat (map escape_char v) @ CHR 0x22 # rest)"
    by (simp add: member_def quote_def)
  then show ?thesis
    by (simp only: string_member_def expect_append option.case string_body_quote)
qed

lemma string_items_quoted:
  "string_items (comma_separated (map quote (x # xs)) @ CHR '']'' # rest) = Some (x # xs, rest)"
proof (induction xs arbitrary: x)
  case Nil
  show ?case
    by (subst string_items.simps) (simp add: quote_def string_body_quote)
next
  case (Cons y ys)
  have "string_items (comma_separated (map quote (x # y # ys)) @ CHR '']'' # rest) =
        map_option (\<lambda>(xs, r2). (x # xs, r2))
          (string_items (comma_separated (map quote (y # ys)) @ CHR '']'' # rest))"
    by (subst string_items.simps) (simp add: quote_def string_body_quote)
  with Cons show ?case by simp
qed

lemma parse_string_array_string_array [simp]:
  "parse_string_array (string_array xs @ rest) = Some (xs, rest)"
proof (cases xs)
  case Nil
  then show ?thesis by (simp add: parse_string_array_def string_array_def)
next
  case (Cons x ys)
  have "\<exists>body. comma_separated (map quote (x # ys)) @ CHR '']'' # rest = CHR 0x22 # body"
    by (cases ys) (simp_all add: quote_def)
  then obtain body where b: "comma_separated (map quote (x # ys)) @ CHR '']'' # rest = CHR 0x22 # body"
    by blast
  then have "string_array xs @ rest = CHR ''['' # CHR 0x22 # body"
    by (simp add: string_array_def Cons)
  then have "parse_string_array (string_array xs @ rest) = string_items (CHR 0x22 # body)"
    by (simp add: parse_string_array_def)
  also have "\<dots> = Some (x # ys, rest)"
    using string_items_quoted [of x ys rest] b by simp
  finally show ?thesis by (simp add: Cons)
qed

lemma quote_plain:
  "list_all (\<lambda>c. c \<noteq> CHR 0x22 \<and> c \<noteq> CHR 0x5C \<and> 32 \<le> (of_char c :: nat)) k \<Longrightarrow>
   quote k = CHR 0x22 # k @ [CHR 0x22]"
  by (induction k) (auto simp: quote_def escape_char_def Let_def)

lemma string_member_name_from [simp]: "string_member ''name'' (member ''from'' v @ rest) = None"
  by (simp add: string_member_def member_def quote_plain expect_def)

lemma string_member_type_name [simp]: "string_member ''type'' (member ''name'' v @ rest) = None"
  by (simp add: string_member_def member_def quote_plain expect_def)

lemma string_member_type_from [simp]: "string_member ''type'' (member ''from'' v @ rest) = None"
  by (simp add: string_member_def member_def quote_plain expect_def)

lemma entity_members_text:
  "entity_members t (member ''name'' (quote (name e)) @ '','' @
       member ''entityType'' (quote (entityType e)) @ '','' @
       member ''observations'' (string_array (observations e)) @ ''}'') =
   Some (EntityItem (e\<lparr>e_type := t\<rparr>))"
proof -
  have 2: "'','' @ member ''observations'' (string_array (observations e)) @ ''}'' =
      ('','' @ member ''observations'' []) @ (string_array (observations e) @ ''}'')"
    by (simp add: member_def)
  show ?thesis
    unfolding entity_members_def
    by (simp only: string_member_member option.case prod.case 2 expect_append
          parse_string_array_string_array) simp
qed

lemma relation_members_text:
  "relation_members t (member ''from'' (quote (from' r)) @ '','' @
       member ''to'' (quote (to' r)) @ '','' @
       member ''relationType'' (quote (relationType r)) @ ''}'') =
   Some (RelationItem (r\<lparr>r_type := t\<rparr>))"
  unfolding relation_members_def
  by (simp only: string_member_member option.case prod.case expect_append) simp

lemma members_entity_text:
  "members t (member ''name'' (quote (name e)) @ '','' @
       member ''entityType'' (quote (entityType e)) @ '','' @
       member ''observations'' (string_array (observations e)) @ ''}'') =
   Some (EntityItem (e\<lparr>e_type := t\<rparr>))"
  by (simp only: members_def entity_members_text option.case)

lemma members_relation_text:
  "members t (member ''from'' (quote (from' r)) @ '','' @
       member ''to'' (quote (to' r)) @ '','' @
       member ''relationType'' (quote (relationType r)) @ ''}'') =
   Some (RelationItem (r\<lparr>r_type := t\<rparr>))"
  by (simp only: members_def entity_members_def string_member_name_from option.case
        relation_members_text)

lemma member_not_close: "member k v @ rest \<noteq> ''}''"
  by (simp add: member_def quote_def)

lemma JSON_parse_stringify_entity:
  "JSON_parse_ref (JSON_stringify_ref (EntityItem e)) = Some (EntityItem e)"
proof (cases "e_type e")
  case None
  have "JSON_stringify_ref (EntityItem e) =
      ''{'' @ (member ''name'' (quote (name e)) @ '','' @
       member ''entityType'' (quote (entityType e)) @ '','' @
       member ''observations'' (string_array (observations e)) @ ''}'')"
    by (simp add: None)
  then show ?thesis
    using members_entity_text [of None e] None
    by (simp only: JSON_parse_ref_def expect_append string_member_type_name option.case
          member_not_close if_False) simp
next
  case (Some t)
  have "JSON_stringify_ref (EntityItem e) =
      ''{'' @ (member ''type'' (quote t) @ ('','' @ (member ''name'' (quote (name e)) @ '','' @
       member ''entityType'' (quote (entityType e)) @ '','' @
       member ''observations'' (string_array (observations e)) @ ''}'')))"
    by (simp add: Some)
  then show ?thesis
    using members_entity_text [of "Some t" e] Some
    by (simp only: JSON_parse_ref_def expect_append string_member_member option.case prod.case)
      simp
qed

lemma JSON_parse_stringify_relation:
  "JSON_parse_ref (JSON_stringify_ref (RelationItem r)) = Some (RelationItem r)"
proof (cases "r_type r")
  case None
  have "JSON_stringify_ref (RelationItem r) =
      ''{'' @ (member ''from'' (quote (from' r)) @ '','' @
       member ''to'' (quote (to' r)) @ '','' @
       member ''relationType'' (quote (relationType r)) @ ''}'')"
    by (simp add: None)
  then show ?thesis
    using members_relation_text [of None r] None
    by (simp only: JSON_parse_ref_def expect_append string_member_type_from option.case
          member_not_close if_False) simp
next
  case (Some t)
  have "JSON_stringify_ref (RelationItem r) =
      ''{'' @ (member ''type'' (quote t) @ ('','' @ (member ''from'' (quote (from' r)) @ '','' @
       member ''to'' (quote (to' r)) @ '','' @
       member ''relationType'' (quote (relationType r)) @ ''}'')))"
    by (simp add: Some)
  then show ?thesis
    using members_relation_text [of "Some t" r] Some
    by (simp only: JSON_parse_ref_def expect_append string_member_member option.case prod.case)
      simp
qed

lemma escape_char_no_newline: "CHR 10 \<notin> set (escape_char c)"
proof -
  have "hex_digit d \<noteq> CHR 10" if "d < 16" for d
  proof
    assume "hex_digit d = CHR 10"
    then have "(of_char (hex_digit d) :: nat) = of_char (CHR 10)" by (rule arg_cong)
    with that show False by (simp add: hex_digit_def split: if_splits)
  qed
  then have ne: "CHR 10 \<noteq> hex_digit d" if "d < 16" for d
    using that by fastforce
  have "(of_char c :: nat) div 16 < 16" if "(of_char c :: nat) < 32"
    using that by simp
  then have h1: "CHR 10 \<noteq> hex_digit (of_char c div 16)" if "(of_char c :: nat) < 32"
    using that ne by blast
  have "(of_char c :: nat) mod 16 < 16" by simp
  then have h2: "CHR 10 \<noteq> hex_digit (of_char c mod 16)"
    using ne by blast
  have "c \<noteq> CHR 10" if "\<not> (of_char c :: nat) < 32"
    using that by auto
  with h1 h2 show ?thesis
    by (auto simp: escape_char_def Let_def)
qed

lemma quote_no_newline: "CHR 10 \<notin> set (quote s)"
  using escape_char_no_newline by (auto simp: quote_def)

lemma comma_separated_no_newline:
  "\<forall>x \<in> set xs. CHR 10 \<notin> set x \<Longrightarrow> CHR 10 \<notin> set (comma_separated xs)"
  by (induction xs rule: comma_separated.induct) auto

lemma string_array_no_newline: "CHR 10 \<notin> set (string_array xs)"
  using comma_separated_no_newline [of "map quote xs"] quote_no_newline
  by (auto simp: string_array_def)

lemma JSON_stringify_no_newline: "CHR 10 \<notin> set (JSON_stringify_ref it)"
  using quote_no_newline string_array_no_newline
  by (cases it) (auto simp: member_def split: option.splits)

lemma trim_starts: "\<not> is_space c \<Longrightarrow> trim (c # s) \<noteq> []"
  by (simp add: trim_empty_iff)

lemma JSON_stringify_not_blank: "trim (JSON_stringify_ref it) \<noteq> []"
proof -
  have "\<not> is_space (CHR ''{'')" by (simp add: is_space_def)
  then show ?thesis by (cases it) (simp_all add: trim_starts)
qed

lemma json_codec_reference: "json_codec reference"
  by (simp del: JSON_stringify_ref.simps
        add: json_codec_def reference_def JSON_parse_stringify_entity
        JSON_parse_stringify_relation JSON_stringify_no_newline JSON_stringify_not_blank)

lemma index_contract_reference: "index_contract reference"
  by (auto simp: index_contract_def reference_def Index_search_ref_def dest!: in_set_takeD)

subsection \<open>The example graphs\<close>

lemma words_from_prefix:
  "cur \<noteq> [] \<Longrightarrow> \<exists>w ws. words_from cur s = (cur @ w) # ws"
proof (induction s arbitrary: cur)
  case Nil
  then show ?case by simp
next
  case (Cons c s)
  show ?case
  proof (cases "word_char c")
    case True
    from Cons.IH [of "cur @ [c]"] obtain w ws where "words_from (cur @ [c]) s = ((cur @ [c]) @ w) # ws"
      by auto
    with True show ?thesis by simp
  next
    case False
    with Cons.prems show ?thesis by simp
  qed
qed

lemma document_matches_n: "document_matches ''n'' (CHR ''n'' # s)"
proof -
  have q: "words_from [] (map lower_char ''n'') = [''n'']"
    by (simp add: lower_char_def word_char_def)
  have "words_from [] (map lower_char (CHR ''n'' # s)) = words_from ''n'' (map lower_char s)"
    by (simp add: lower_char_def word_char_def)
  then obtain w ws where "words_from [] (map lower_char (CHR ''n'' # s)) = (''n'' @ w) # ws"
    using words_from_prefix [of "''n''" "map lower_char s"] by auto
  with q show ?thesis
    unfolding document_matches_def Let_def by simp
qed

lemma crowd_loaded: "loaded crowd_graph"
  by (simp add: loaded_def crowd_graph_def crowd_member_def straggler_def list_all_iff)

lemma crowd_load: "loadGraph reference crowd_state = (crowd_state, Inr crowd_graph)"
  using load_after_save [OF json_codec_reference loaded_well_tagged [OF crowd_loaded], of no_file]
    loaded_as_stored [OF crowd_loaded]
  by (simp add: crowd_state_def)

lemma crowd_entity_documents_match:
  "filter (\<lambda>(i, text). document_matches ''n'' text) (entity_documents crowd_graph) =
   entity_documents crowd_graph"
proof -
  have "\<forall>e \<in> set (entities crowd_graph). \<exists>s. name e @ '' '' @ entityType e = CHR ''n'' # s"
    by (auto simp: crowd_graph_def crowd_member_def straggler_def)
  then have "\<forall>d \<in> set (entity_documents crowd_graph). document_matches ''n'' (snd d)"
    by (auto simp: entity_documents_def enumerate_from0_def document_matches_n dest!: set_zip_rightD)
  then show ?thesis by (simp add: filter_id_conv case_prod_unfold)
qed

lemma crowd_entity_results:
  "Index_search reference (entityIndex crowd_state) ''n'' 100 = map NumId [0..<100]"
proof -
  have "entityIndex crowd_state = entity_documents crowd_graph"
    by (simp add: crowd_state_def saveGraph_def rebuildIndexes_def)
  moreover have "length (entities crowd_graph) = 101" by (simp add: crowd_graph_def)
  moreover have "take 100 [0..<101] = [0..<100]" by (simp add: take_upt)
  ultimately show ?thesis
    by (simp add: reference_def Index_search_ref_def crowd_entity_documents_match
          map_fst_entity_documents take_map)
qed

lemma crowd_observation_documents:
  "observation_documents crowd_graph =
   [(StrId (String_of_nat 100 @ ''-'' @ String_of_nat 0), ''n'')]"
proof -
  have "concat (map (\<lambda>(i, e).
        map (\<lambda>(j, observation). (StrId (String_of_nat i @ ''-'' @ String_of_nat j), observation))
          (enumerate_from0 (observations e)))
       (enumerate_from0 (map crowd_member [0..<100]))) = []"
    by (auto simp: enumerate_from0_def crowd_member_def dest!: set_zip_rightD)
  then show ?thesis
    by (simp add: observation_documents_def crowd_graph_def enumerate_from0_snoc)
       (simp add: enumerate_from0_def straggler_def)
qed

lemma crowd_observation_results:
  "Index_search reference (observationIndex crowd_state) ''n'' 100 =
   [StrId (String_of_nat 100 @ ''-'' @ String_of_nat 0)]"
proof -
  have "observationIndex crowd_state = observation_documents crowd_graph"
    by (simp add: crowd_state_def saveGraph_def rebuildIndexes_def)
  then show ?thesis
    by (simp add: reference_def Index_search_ref_def crowd_observation_documents
          document_matches_n)
qed

lemma crowd_all_matched:
  "filter (\<lambda>(i, e). NumId i \<in> set (map NumId [0..<100]) \<or> int i \<in> set [100])
     (enumerate_from0 (entities crowd_graph)) = enumerate_from0 (entities crowd_graph)"
proof -
  have "length (entities crowd_graph) = 101" by (simp add: crowd_graph_def)
  then have "\<forall>p \<in> set (enumerate_from0 (entities crowd_graph)). fst p < 101"
    by (auto simp: enumerate_from0_def dest!: set_zip_leftD)
  then have "\<forall>p \<in> set (enumerate_from0 (entities crowd_graph)).
      NumId (fst p) \<in> set (map NumId [0..<100]) \<or> int (fst p) \<in> set [100]"
    by fastforce
  then show ?thesis by (simp add: filter_id_conv case_prod_unfold)
qed

lemma crowd_search:
  "searchNodes reference ''n'' crowd_state = (crowd_state, Inr crowd_graph)"
proof -
  have t: "trim ''n'' \<noteq> []" by (simp add: trim_empty_iff is_space_def)
  have o: "observation_entity_indexes [StrId (String_of_nat 100 @ ''-'' @ String_of_nat 0)] = Inr [100]"
    by (simp only: observation_entity_indexes.simps takeWhile_id_prefix parseInt_String_of_nat
          sum.case option.case) simp
  have m: "map snd (enumerate_from0 (entities crowd_graph)) = entities crowd_graph"
    by (simp add: enumerate_from0_def)
  have i: "induced_graph crowd_graph (entities crowd_graph) = crowd_graph"
    by (simp add: induced_graph_def crowd_graph_def)
  show ?thesis
    unfolding searchNodes_def crowd_load prod.case sum.case
    by (simp only: t if_False crowd_entity_results crowd_observation_results Let_def o sum.case
          crowd_all_matched m i)
qed

lemma tea_distinct: "distinct (entities tea_graph)"
  by (auto simp: tea_graph_def distinct_map tea_drinker_def inj_on_def dest: String_of_nat_inj)

lemma tea_loaded: "loaded tea_graph"
  by (simp add: loaded_def tea_graph_def tea_drinker_def list_all_iff)

lemma tea_load: "loadGraph reference tea_state = (tea_state, Inr tea_graph)"
  using load_after_save [OF json_codec_reference loaded_well_tagged [OF tea_loaded], of no_file]
    loaded_as_stored [OF tea_loaded]
  by (simp add: tea_state_def)

lemma tea_owner_omitted:
  "\<not> list_all (\<lambda>e. e \<in> set (found_entities (searchNodes reference ''tea'' tea_state)))
       (entities tea_graph)"
proof
  assume a: "list_all (\<lambda>e. e \<in> set (found_entities (searchNodes reference ''tea'' tea_state)))
       (entities tea_graph)"
  obtain result where r: "searchNodes reference ''tea'' tea_state = (tea_state, Inr result)"
    using searchNodes_succeeds [OF index_contract_reference tea_load] by blast
  then have "length (entities result) \<le> 200"
    using searchNodes_length_bound [OF index_contract_reference] by blast
  moreover from a r have "set (entities tea_graph) \<subseteq> set (entities result)"
    by (auto simp: found_entities_def list_all_iff)
  then have "card (set (entities tea_graph)) \<le> card (set (entities result))"
    by (intro card_mono) auto
  moreover have "card (set (entities tea_graph)) = 201"
    using distinct_card [OF tea_distinct] by (simp add: tea_graph_def)
  moreover have "card (set (entities result)) \<le> length (entities result)"
    by (rule card_length)
  ultimately show False by linarith
qed

lemma tea_everywhere:
  "list_all (\<lambda>e. list_ex (\<lambda>ob. String_includes ob ''tea'') (observations e)) (entities tea_graph)"
  by (simp add: tea_graph_def tea_drinker_def list_all_iff)

lemma document_matches_e: "document_matches ''e'' (CHR ''e'' # s)"
proof -
  have q: "words_from [] (map lower_char ''e'') = [''e'']"
    by (simp add: lower_char_def word_char_def)
  have "words_from [] (map lower_char (CHR ''e'' # s)) = words_from ''e'' (map lower_char s)"
    by (simp add: lower_char_def word_char_def)
  then obtain w ws where "words_from [] (map lower_char (CHR ''e'' # s)) = (''e'' @ w) # ws"
    using words_from_prefix [of "''e''" "map lower_char s"] by auto
  with q show ?thesis
    unfolding document_matches_def Let_def by simp
qed

lemma tea_entity_documents_match:
  "filter (\<lambda>(i, text). document_matches ''e'' text) (entity_documents tea_graph) =
   entity_documents tea_graph"
proof -
  have "\<forall>e \<in> set (entities tea_graph). \<exists>s. name e @ '' '' @ entityType e = CHR ''e'' # s"
    by (auto simp: tea_graph_def tea_drinker_def)
  then have "\<forall>d \<in> set (entity_documents tea_graph). document_matches ''e'' (snd d)"
    by (auto simp: entity_documents_def enumerate_from0_def document_matches_e dest!: set_zip_rightD)
  then show ?thesis by (simp add: filter_id_conv case_prod_unfold)
qed

lemma tea_entity_results:
  "Index_search reference (entityIndex tea_state) ''e'' 100 = map NumId [0..<100]"
proof -
  have "entityIndex tea_state = entity_documents tea_graph"
    by (simp add: tea_state_def saveGraph_def rebuildIndexes_def)
  moreover have "length (entities tea_graph) = 201" by (simp add: tea_graph_def)
  moreover have "take 100 [0..<201] = [0..<100]" by (simp add: take_upt)
  ultimately show ?thesis
    by (simp add: reference_def Index_search_ref_def tea_entity_documents_match
          map_fst_entity_documents take_map)
qed

lemma tea_observation_results:
  "Index_search reference (observationIndex tea_state) ''e'' 100 = []"
proof -
  have o: "observationIndex tea_state = observation_documents tea_graph"
    by (simp add: tea_state_def saveGraph_def rebuildIndexes_def)
  have n: "\<not> document_matches ''e'' ''likes tea''" by code_simp
  have "\<forall>d \<in> set (observation_documents tea_graph). snd d = ''likes tea''"
    by (auto simp: observation_documents_def tea_graph_def tea_drinker_def enumerate_from0_def
          dest!: set_zip_rightD)
  with n have "filter (\<lambda>(i, text). document_matches ''e'' text) (observation_documents tea_graph) = []"
    by (auto simp: filter_empty_conv)
  with o show ?thesis by (simp add: reference_def Index_search_ref_def)
qed

lemma first_positions:
  "map snd (filter (\<lambda>(i, e). NumId i \<in> set (map NumId [0..<k]) \<or> int i \<in> set [])
     (enumerate_from0 xs)) = take k xs"
proof (induction xs rule: rev_induct)
  case Nil
  then show ?case by (simp add: enumerate_from0_def)
next
  case (snoc x xs)
  then show ?case by (auto simp: enumerate_from0_snoc)
qed

lemma tea_search:
  "searchNodes reference ''e'' tea_state =
     (tea_state, Inr \<lparr>entities = map tea_drinker [0..<100], relations = []\<rparr>)"
proof -
  have t: "trim ''e'' \<noteq> []" by (simp add: trim_empty_iff is_space_def)
  have o: "observation_entity_indexes [] = Inr []" by simp
  have "take 100 (entities tea_graph) = map tea_drinker [0..<100]"
    by (simp add: tea_graph_def take_map take_upt)
  then have i: "induced_graph tea_graph (take 100 (entities tea_graph)) =
      \<lparr>entities = map tea_drinker [0..<100], relations = []\<rparr>"
    by (simp add: induced_graph_def tea_graph_def)
  show ?thesis
    unfolding searchNodes_def tea_load prod.case sum.case
    by (simp only: t if_False tea_entity_results tea_observation_results Let_def o sum.case
          first_positions i)
qed

subsection \<open>The examples evaluated, and the score of equal parts\<close>

lemma example_loaded: "snd (loadGraph reference example_state) = Inr example_graph"
  by code_simp

lemma example_load:
  "loadGraph reference example_state = (fst (loadGraph reference example_state), Inr example_graph)"
  using example_loaded by (rule pair_of_snd)

lemma score_of_equal_parts:
  "fadd (fmul (Finite 1) (literal (7 / 10))) (fmul (Finite 1) (literal (3 / 10))) = Finite 1"
  by code_simp

lemma calculateSimilarity_same: "calculateSimilarity s s = Finite 1"
  by (simp add: calculateSimilarity_def)

lemma compare_identical:
  assumes "name E1 = name E2" and "entityType E1 = entityType E2"
    and "\<not> merged_semanticMatchingEnabled opts"
  shows "compare_entities opts E1 E2 =
     \<lparr>dup_entity = E1, existingEntity = E2, similarityScore = Finite 1, matchType = ''exact'',
      dup_details = Exact_details, duplicateType = ''structural''\<rparr>"
  using assms
  by (simp add: compare_entities_def Let_def calculateSimilarity_same score_of_equal_parts)

lemma duplicateEntities_of_member:
  assumes "E1 \<in> set es" and "E2 \<in> set (entities graph)"
    and "fge (similarityScore (compare_entities opts E1 E2)) (merged_entityNameSimilarityThreshold opts)"
  shows "compare_entities opts E1 E2 \<in> set (duplicateEntities_of opts es graph)"
  using assms by (auto simp: duplicateEntities_of_def)

lemma smith_loaded:
  "snd (loadGraph reference smith_state) =
     Inr \<lparr>entities = [alice_smith\<lparr>e_type := Some ''entity''\<rparr>], relations = []\<rparr>"
  by code_simp

lemma count_distinct_key:
  "distinct (map f xs) \<Longrightarrow>
   length (filter (\<lambda>x. f x = y) xs) = (if y \<in> set (map f xs) then 1 else 0)"
  by (induction xs) (auto simp: image_iff)

section \<open>The claims\<close>

text \<open>
  Claim C1 (amended). Uniqueness of entity names is kept by every mutation that
  succeeds, when the entities that the call asks to create and the stored graph does
  not have yet bear pairwise different names: starting from a stored graph with
  pairwise distinct entity names, the stored graph after \<open>createEntities\<close>,
  \<open>createRelations\<close>, \<open>addObservations\<close>, \<open>deleteEntities\<close>,
  \<open>deleteObservations\<close>, \<open>deleteRelations\<close> or \<open>batchCreate\<close> has pairwise
  distinct entity names again. (The objects of the request carry no foreign \<open>type\<close>
  property.)
\<close>

theorem names_stay_distinct:
  assumes codec: "json_codec P"
    and load: "loadGraph P st = (st0, Inr graph)"
    and dist: "distinct (map name (entities graph))"
    and plain_e: "list_all (\<lambda>e. e_type e = None \<or> e_type e = Some ''entity'') (requested_entities m)"
    and plain_r: "list_all (\<lambda>r. r_type r = None \<or> r_type r = Some ''relation'') (requested_relations m)"
    and new: "distinct (map name (filter (\<lambda>e. name e \<notin> set (map name (entities graph)))
                  (requested_entities m)))"
    and succeeded: "mutate P m st = (st', None)"
  shows "\<exists>graph'. loadGraph P st' = (st', Inr graph') \<and> distinct (map name (entities graph'))"
proof -
  from load have lg: "loaded graph" by (rule loadGraph_loaded)
  note le = loaded_facts [OF lg]
  have "\<exists>g. st' = saveGraph P g st0 \<and> well_tagged g \<and> distinct (map name (entities g))"
  proof (cases m)
    case (CreateEntities es)
    let ?g = "graph\<lparr>entities := entities graph @
        filter (\<lambda>e. name e \<notin> set (map name (entities graph))) es\<rparr>"
    from succeeded obtain r where "createEntities P es st = (st', Inr r)"
      by (auto simp: CreateEntities outcome_None)
    with load have "st' = saveGraph P ?g st0" by (rule saved_createEntities)
    moreover from le plain_e have "well_tagged ?g"
      by (auto simp: well_tagged_def CreateEntities list_all_iff)
    moreover from dist new have "distinct (map name (entities ?g))"
      using distinct_names_append [of "entities graph" es] by (simp add: CreateEntities)
    ultimately show ?thesis by blast
  next
    case (CreateRelations rs)
    let ?g = "graph\<lparr>relations := relations graph @
        filter (\<lambda>r. \<not> list_ex (\<lambda>existingRelation. same_relation existingRelation r)
                        (relations graph)) rs\<rparr>"
    from succeeded obtain r where "createRelations P rs st = (st', Inr r)"
      by (auto simp: CreateRelations outcome_None)
    with load have "st' = saveGraph P ?g st0" by (rule saved_createRelations)
    moreover from le plain_r have "well_tagged ?g"
      by (auto simp: well_tagged_def CreateRelations list_all_iff)
    moreover from dist have "distinct (map name (entities ?g))" by simp
    ultimately show ?thesis by blast
  next
    case (AddObservations os)
    from succeeded obtain r where "addObservations P os st = (st', Inr r)"
      by (auto simp: AddObservations outcome_None)
    with load obtain g where a: "add_each os graph = Inr (g, r)"
      and s: "st' = saveGraph P g st0"
      using saved_addObservations by blast
    from add_each_Inr [OF a] lg have "well_tagged g"
      by (intro well_tagged_cong [of g graph] loaded_well_tagged) simp_all
    moreover from add_each_Inr [OF a] dist have "distinct (map name (entities g))" by simp
    ultimately show ?thesis using s by blast
  next
    case (DeleteEntities ns)
    let ?g = "graph\<lparr>entities := filter (\<lambda>e. name e \<notin> set ns) (entities graph),
       relations := filter (\<lambda>r. from' r \<notin> set ns \<and> to' r \<notin> set ns) (relations graph)\<rparr>"
    from succeeded obtain r where "deleteEntities P ns st = (st', Inr r)"
      by (auto simp: DeleteEntities outcome_None)
    with load have "st' = saveGraph P ?g st0" by (rule saved_deleteEntities)
    moreover from lg have "loaded ?g"
      by (simp add: loaded_def list_all_iff)
    then have "well_tagged ?g" by (rule loaded_well_tagged)
    moreover from dist have "distinct (map name (entities ?g))"
      by (simp add: distinct_map_filter)
    ultimately show ?thesis by blast
  next
    case (DeleteObservations ds)
    from succeeded obtain r where "deleteObservations P ds st = (st', Inr r)"
      by (auto simp: DeleteObservations outcome_None)
    with load have "st' = saveGraph P (delete_each ds graph) st0"
      by (rule saved_deleteObservations)
    moreover from lg have "well_tagged (delete_each ds graph)"
      using delete_each_keeps [of ds graph]
      by (intro well_tagged_cong [of "delete_each ds graph" graph] loaded_well_tagged) simp_all
    moreover from dist have "distinct (map name (entities (delete_each ds graph)))"
      using delete_each_keeps [of ds graph] by simp
    ultimately show ?thesis by blast
  next
    case (DeleteRelations rs)
    let ?g = "graph\<lparr>relations :=
       filter (\<lambda>r. \<not> list_ex (\<lambda>delRelation. same_relation r delRelation) rs) (relations graph)\<rparr>"
    from succeeded obtain r where "deleteRelations P rs st = (st', Inr r)"
      by (auto simp: DeleteRelations outcome_None)
    with load have "st' = saveGraph P ?g st0" by (rule saved_deleteRelations)
    moreover from lg have "loaded ?g" by (rule loaded_filter_relations)
    then have "well_tagged ?g" by (rule loaded_well_tagged)
    moreover from dist have "distinct (map name (entities ?g))" by simp
    ultimately show ?thesis by blast
  next
    case (BatchCreate data)
    let ?es = "case batch_entities data of None \<Rightarrow> [] | Some es \<Rightarrow> es"
    let ?rs = "case batch_relations data of None \<Rightarrow> [] | Some rs \<Rightarrow> rs"
    let ?g2 = "graph\<lparr>entities := entities graph @
                 filter (\<lambda>e. name e \<notin> set (map name (entities graph))) ?es,
               relations := relations graph @
                 filter (\<lambda>r. \<not> list_ex (\<lambda>existingRelation. same_relation existingRelation r)
                                 (relations graph)) ?rs\<rparr>"
    from succeeded obtain r where "batchCreate P data st = (st', Inr r)"
      by (auto simp: BatchCreate outcome_None)
    with load obtain g3 res where a: "add_each
        (case batch_observations data of None \<Rightarrow> [] | Some os \<Rightarrow> os) ?g2 = Inr (g3, res)"
      and s: "st' = saveGraph P g3 st0"
      using saved_batchCreate by blast
    from le plain_e plain_r have "well_tagged ?g2"
      by (auto simp: well_tagged_def BatchCreate list_all_iff)
    with add_each_Inr [OF a] have "well_tagged g3"
      by (intro well_tagged_cong [of g3 ?g2]) simp_all
    moreover from dist new have "distinct (map name (entities ?g2))"
      using distinct_names_append [of "entities graph" ?es] by (simp add: BatchCreate)
    with add_each_Inr [OF a] have "distinct (map name (entities g3))" by simp
    ultimately show ?thesis using s by blast
  qed
  then obtain g where "st' = saveGraph P g st0" "well_tagged g" "distinct (map name (entities g))"
    by blast
  with codec show ?thesis using stored_distinct [of P g st0] by simp
qed

theorem names_stay_distinct_witness:
  "json_codec reference \<and>
   loadGraph reference example_state = (fst (loadGraph reference example_state), Inr example_graph) \<and>
   distinct (map name (entities example_graph)) \<and>
   list_all (\<lambda>e. e_type e = None \<or> e_type e = Some ''entity'')
     (requested_entities (BatchCreate
        \<lparr>batch_entities = Some [alice, \<lparr>e_type = None, name = ''Carol'', entityType = ''person'',
                                        observations = []\<rparr>],
         batch_relations = Some [alice_knows_bob],
         batch_observations = Some [\<lparr>entityName = ''Carol'', contents = [''is new'']\<rparr>]\<rparr>)) \<and>
   list_all (\<lambda>r. r_type r = None \<or> r_type r = Some ''relation'')
     (requested_relations (BatchCreate
        \<lparr>batch_entities = Some [alice, \<lparr>e_type = None, name = ''Carol'', entityType = ''person'',
                                        observations = []\<rparr>],
         batch_relations = Some [alice_knows_bob],
         batch_observations = Some [\<lparr>entityName = ''Carol'', contents = [''is new'']\<rparr>]\<rparr>)) \<and>
   (\<exists>st'. mutate reference (BatchCreate
        \<lparr>batch_entities = Some [alice, \<lparr>e_type = None, name = ''Carol'', entityType = ''person'',
                                        observations = []\<rparr>],
         batch_relations = Some [alice_knows_bob],
         batch_observations = Some [\<lparr>entityName = ''Carol'', contents = [''is new'']\<rparr>]\<rparr>)
        example_state = (st', None) \<and>
      (\<exists>graph'. loadGraph reference st' = (st', Inr graph') \<and>
         distinct (map name (entities graph'))))"
proof -
  let ?m = "BatchCreate
        \<lparr>batch_entities = Some [alice, \<lparr>e_type = None, name = ''Carol'', entityType = ''person'',
                                        observations = []\<rparr>],
         batch_relations = Some [alice_knows_bob],
         batch_observations = Some [\<lparr>entityName = ''Carol'', contents = [''is new'']\<rparr>]\<rparr>"
  have d: "distinct (map name (entities example_graph))"
    by (simp add: example_graph_def alice_def bob_def)
  have pe: "list_all (\<lambda>e. e_type e = None \<or> e_type e = Some ''entity'') (requested_entities ?m)"
    by (simp add: alice_def)
  have pr: "list_all (\<lambda>r. r_type r = None \<or> r_type r = Some ''relation'') (requested_relations ?m)"
    by (simp add: alice_knows_bob_def)
  have n: "distinct (map name (filter (\<lambda>e. name e \<notin> set (map name (entities example_graph)))
                  (requested_entities ?m)))"
    by (simp add: example_graph_def alice_def bob_def)
  have "snd (mutate reference ?m example_state) = None" by code_simp
  then have s: "mutate reference ?m example_state = (fst (mutate reference ?m example_state), None)"
    by (rule pair_of_snd)
  from names_stay_distinct [OF json_codec_reference example_load d pe pr n s]
    json_codec_reference example_load d pe pr s
  show ?thesis by blast
qed

theorem names_stay_distinct_counterexample:
  "snd (loadGraph reference no_file) = Inr \<lparr>entities = [], relations = []\<rparr> \<and>
   snd (createEntities reference [alice, alice] no_file) = Inr [alice, alice] \<and>
   snd (loadGraph reference (fst (createEntities reference [alice, alice] no_file))) =
     Inr \<lparr>entities = [alice\<lparr>e_type := Some ''entity''\<rparr>, alice\<lparr>e_type := Some ''entity''\<rparr>],
          relations = []\<rparr> \<and>
   snd (mutate reference
          (BatchCreate \<lparr>batch_entities = Some [bob, bob], batch_relations = None,
                        batch_observations = None\<rparr>) no_file) = None \<and>
   snd (loadGraph reference (fst (mutate reference
          (BatchCreate \<lparr>batch_entities = Some [bob, bob], batch_relations = None,
                        batch_observations = None\<rparr>) no_file))) =
     Inr \<lparr>entities = [bob\<lparr>e_type := Some ''entity''\<rparr>, bob\<lparr>e_type := Some ''entity''\<rparr>],
          relations = []\<rparr> \<and>
   \<not> distinct (map name [alice\<lparr>e_type := Some ''entity''\<rparr>, alice\<lparr>e_type := Some ''entity''\<rparr>]) \<and>
   \<not> distinct (map name [bob\<lparr>e_type := Some ''entity''\<rparr>, bob\<lparr>e_type := Some ''entity''\<rparr>])"
proof (intro conjI)
  show "snd (loadGraph reference no_file) = Inr \<lparr>entities = [], relations = []\<rparr>"
    by code_simp
  show "snd (createEntities reference [alice, alice] no_file) = Inr [alice, alice]"
    by code_simp
  show "snd (loadGraph reference (fst (createEntities reference [alice, alice] no_file))) =
     Inr \<lparr>entities = [alice\<lparr>e_type := Some ''entity''\<rparr>, alice\<lparr>e_type := Some ''entity''\<rparr>],
          relations = []\<rparr>"
    by code_simp
  show "snd (mutate reference
          (BatchCreate \<lparr>batch_entities = Some [bob, bob], batch_relations = None,
                        batch_observations = None\<rparr>) no_file) = None"
    by code_simp
  show "snd (loadGraph reference (fst (mutate reference
          (BatchCreate \<lparr>batch_entities = Some [bob, bob], batch_relations = None,
                        batch_observations = None\<rparr>) no_file))) =
     Inr \<lparr>entities = [bob\<lparr>e_type := Some ''entity''\<rparr>, bob\<lparr>e_type := Some ''entity''\<rparr>],
          relations = []\<rparr>"
    by code_simp
  show "\<not> distinct (map name [alice\<lparr>e_type := Some ''entity''\<rparr>, alice\<lparr>e_type := Some ''entity''\<rparr>])"
    by simp
  show "\<not> distinct (map name [bob\<lparr>e_type := Some ''entity''\<rparr>, bob\<lparr>e_type := Some ''entity''\<rparr>])"
    by simp
qed

text \<open>
  Claim C2 (amended). For a stored graph that contains an entity \<open>E2\<close> and a call of
  \<open>findDuplicates\<close> with a candidate \<open>E1\<close> of the same name and the same entity
  type: when semantic matching is off and the merged threshold is at most 1.0, the pair
  is reported in \<open>duplicateEntities\<close> with \<open>similarityScore\<close> equal to 1.0,
  \<open>matchType\<close> \<open>exact\<close> and \<open>duplicateType\<close> \<open>structural\<close>. In every mode, a
  pair of a candidate and a stored entity whose score equals the threshold is reported:
  the test is \<open>>=\<close>.
\<close>

theorem identical_entities_reported:
  assumes "loadGraph P st = (st1, Inr graph)"
    and "E1 \<in> set es" and "E2 \<in> set (entities graph)"
  shows "\<exists>ds. findDuplicates_entities P (Some es) opts st = (st1, Inr ds) \<and>
           (name E1 = name E2 \<and> entityType E1 = entityType E2 \<and>
            \<not> merged_semanticMatchingEnabled (mergedOptions opts) \<and>
            (\<exists>t. merged_entityNameSimilarityThreshold (mergedOptions opts) = Finite t \<and> t \<le> 1) \<longrightarrow>
              \<lparr>dup_entity = E1, existingEntity = E2, similarityScore = Finite 1,
               matchType = ''exact'', dup_details = Exact_details,
               duplicateType = ''structural''\<rparr> \<in> set ds) \<and>
           ((\<exists>s. similarityScore (compare_entities (mergedOptions opts) E1 E2) = Finite s \<and>
                 merged_entityNameSimilarityThreshold (mergedOptions opts) = Finite s) \<longrightarrow>
              compare_entities (mergedOptions opts) E1 E2 \<in> set ds)"
proof -
  let ?o = "mergedOptions opts"
  let ?ds = "duplicateEntities_of ?o es graph"
  have f: "findDuplicates_entities P (Some es) opts st = (st1, Inr ?ds)"
    using assms(1) by (simp add: findDuplicates_entities_def)
  have a: "\<lparr>dup_entity = E1, existingEntity = E2, similarityScore = Finite 1,
               matchType = ''exact'', dup_details = Exact_details,
               duplicateType = ''structural''\<rparr> \<in> set ?ds"
    if "name E1 = name E2" "entityType E1 = entityType E2"
      "\<not> merged_semanticMatchingEnabled ?o"
      "merged_entityNameSimilarityThreshold ?o = Finite t" "t \<le> 1" for t
  proof -
    have c: "compare_entities ?o E1 E2 =
       \<lparr>dup_entity = E1, existingEntity = E2, similarityScore = Finite 1, matchType = ''exact'',
        dup_details = Exact_details, duplicateType = ''structural''\<rparr>"
      using that(1-3) by (rule compare_identical)
    then have "fge (similarityScore (compare_entities ?o E1 E2))
        (merged_entityNameSimilarityThreshold ?o)"
      using that(4,5) by (simp add: fge_def)
    with assms(2,3) have "compare_entities ?o E1 E2 \<in> set ?ds"
      by (rule duplicateEntities_of_member)
    with c show ?thesis by simp
  qed
  have b: "compare_entities ?o E1 E2 \<in> set ?ds"
    if "similarityScore (compare_entities ?o E1 E2) = Finite s"
      "merged_entityNameSimilarityThreshold ?o = Finite s" for s
  proof -
    from that have "fge (similarityScore (compare_entities ?o E1 E2))
        (merged_entityNameSimilarityThreshold ?o)"
      by (simp add: fge_def)
    with assms(2,3) show ?thesis by (rule duplicateEntities_of_member)
  qed
  from f a b show ?thesis by blast
qed

theorem identical_entities_reported_witness:
  "loadGraph reference smith_state =
     (fst (loadGraph reference smith_state),
      Inr \<lparr>entities = [alice_smith\<lparr>e_type := Some ''entity''\<rparr>], relations = []\<rparr>) \<and>
   name alice_smith = name (alice_smith\<lparr>e_type := Some ''entity''\<rparr>) \<and>
   entityType alice_smith = entityType (alice_smith\<lparr>e_type := Some ''entity''\<rparr>) \<and>
   \<not> merged_semanticMatchingEnabled
       (mergedOptions (no_options\<lparr>entityNameSimilarityThreshold := Some (Finite 1)\<rparr>)) \<and>
   merged_entityNameSimilarityThreshold
       (mergedOptions (no_options\<lparr>entityNameSimilarityThreshold := Some (Finite 1)\<rparr>)) = Finite 1 \<and>
   similarityScore (compare_entities
       (mergedOptions (no_options\<lparr>entityNameSimilarityThreshold := Some (Finite 1)\<rparr>))
       alice_smith (alice_smith\<lparr>e_type := Some ''entity''\<rparr>)) = Finite 1 \<and>
   (\<exists>ds. findDuplicates_entities reference (Some [alice_smith])
           (no_options\<lparr>entityNameSimilarityThreshold := Some (Finite 1)\<rparr>) smith_state =
           (fst (loadGraph reference smith_state), Inr ds) \<and>
         \<lparr>dup_entity = alice_smith, existingEntity = alice_smith\<lparr>e_type := Some ''entity''\<rparr>,
          similarityScore = Finite 1, matchType = ''exact'', dup_details = Exact_details,
          duplicateType = ''structural''\<rparr> \<in> set ds \<and>
         compare_entities
           (mergedOptions (no_options\<lparr>entityNameSimilarityThreshold := Some (Finite 1)\<rparr>))
           alice_smith (alice_smith\<lparr>e_type := Some ''entity''\<rparr>) \<in> set ds)"
proof -
  let ?opts = "no_options\<lparr>entityNameSimilarityThreshold := Some (Finite 1)\<rparr>"
  let ?E2 = "alice_smith\<lparr>e_type := Some ''entity''\<rparr>"
  have l: "loadGraph reference smith_state =
     (fst (loadGraph reference smith_state), Inr \<lparr>entities = [?E2], relations = []\<rparr>)"
    using smith_loaded by (rule pair_of_snd)
  have n: "name alice_smith = name ?E2" "entityType alice_smith = entityType ?E2" by simp_all
  have m: "\<not> merged_semanticMatchingEnabled (mergedOptions ?opts)"
    "merged_entityNameSimilarityThreshold (mergedOptions ?opts) = Finite 1"
    by (simp_all add: mergedOptions_def no_options_def)
  have c: "similarityScore (compare_entities (mergedOptions ?opts) alice_smith ?E2) = Finite 1"
    using compare_identical [OF n m(1)] by simp
  have e1: "alice_smith \<in> set [alice_smith]" by simp
  have e2: "?E2 \<in> set (entities \<lparr>entities = [?E2], relations = []\<rparr>)" by simp
  from identical_entities_reported [OF l e1 e2, of ?opts] l n m c
  show ?thesis by (simp only: simp_thms) blast
qed

text \<open>
  The claim as stated fails when semantic matching is on. The score of the name is then
  0.7 times the edit similarity plus 0.3 times the cosine of the keyword vectors, and for
  the two keywords of \<open>alice smith\<close> the cosine of the vector with itself is rounded
  to 0.9999999999999998. The entity \<open>Alice Smith\<close> of type \<open>person\<close> against its
  stored self gets the score 0.9999999999999998: it is not reported at the threshold
  1.0, and under the preset \<open>loose\<close> it is reported with that score, not 1.0.
\<close>

theorem identical_entities_reported_counterexample:
  "snd (loadGraph reference smith_state) =
     Inr \<lparr>entities = [alice_smith\<lparr>e_type := Some ''entity''\<rparr>], relations = []\<rparr> \<and>
   snd (findDuplicates_entities reference (Some [alice_smith])
          (no_options\<lparr>semanticMatchingEnabled := Some True,
                      entityNameSimilarityThreshold := Some (Finite 1)\<rparr>) smith_state) = Inr [] \<and>
   snd (findDuplicates_entities reference (Some [alice_smith])
          (no_options\<lparr>preset := Some loose\<rparr>) smith_state) =
     Inr [\<lparr>dup_entity = alice_smith, existingEntity = alice_smith\<lparr>e_type := Some ''entity''\<rparr>,
           similarityScore = Finite (4503599627370495 / 4503599627370496),
           matchType = ''exact'', dup_details = Exact_details,
           duplicateType = ''structural''\<rparr>]"
proof (intro conjI)
  show "snd (loadGraph reference smith_state) =
     Inr \<lparr>entities = [alice_smith\<lparr>e_type := Some ''entity''\<rparr>], relations = []\<rparr>"
    by (rule smith_loaded)
  show "snd (findDuplicates_entities reference (Some [alice_smith])
          (no_options\<lparr>semanticMatchingEnabled := Some True,
                      entityNameSimilarityThreshold := Some (Finite 1)\<rparr>) smith_state) = Inr []"
    by code_simp
  show "snd (findDuplicates_entities reference (Some [alice_smith])
          (no_options\<lparr>preset := Some loose\<rparr>) smith_state) =
     Inr [\<lparr>dup_entity = alice_smith, existingEntity = alice_smith\<lparr>e_type := Some ''entity''\<rparr>,
           similarityScore = Finite (4503599627370495 / 4503599627370496),
           matchType = ''exact'', dup_details = Exact_details,
           duplicateType = ''structural''\<rparr>]"
    by code_simp
qed

text \<open>
  Claim C3 (amended). For a query that is not blank: when the observation index, asked
  for at most 100 ids, reports an observation of the entity at position \<open>i\<close> of the
  stored graph, \<open>searchNodes\<close> includes that entity in its result. Which observations
  a query matches is the index's decision; the store adds the test for a blank query
  and the limit of 100.
\<close>

theorem searchNodes_reported_observation:
  assumes "index_contract P"
    and "loadGraph P st = (st1, Inr graph)"
    and "\<not> list_all is_space query"
    and "i < length (entities graph)"
    and "StrId (String_of_nat i @ ''-'' @ String_of_nat j)
           \<in> set (Index_search P (observationIndex st1) query 100)"
  shows "\<exists>result. searchNodes P query st = (st1, Inr result) \<and>
           entities graph ! i \<in> set (entities result)"
proof -
  define ers where "ers = Index_search P (entityIndex st1) query 100"
  define ors where "ors = Index_search P (observationIndex st1) query 100"
  from assms(1) have "set ors \<subseteq> fst ` set (observationIndex st1)"
    by (simp add: index_contract_def ors_def)
  with assms(2) have "\<forall>x \<in> set ors. \<exists>s. x = StrId s"
    using loadGraph_indexes [of P st st1 graph] observation_ids_are_strings [of _ graph]
    by (metis subsetD)
  then obtain ois where ois: "observation_entity_indexes ors = Inr ois"
    and all: "\<forall>s n. StrId s \<in> set ors \<and> parseInt (takeWhile (\<lambda>c. c \<noteq> CHR ''-'') s) = Some n
              \<longrightarrow> n \<in> set ois"
    using observation_entity_indexes_strings [of ors] by blast
  have "parseInt (takeWhile (\<lambda>c. c \<noteq> CHR ''-'') (String_of_nat i @ ''-'' @ String_of_nat j)) = Some (int i)"
    by (simp only: takeWhile_id_prefix parseInt_String_of_nat)
  with all assms(5) have "int i \<in> set ois" unfolding ors_def by blast
  then have "entities graph ! i \<in> set (map snd (filter (\<lambda>(i, e). NumId i \<in> set ers \<or> int i \<in> set ois)
                 (enumerate_from0 (entities graph))))"
    using assms(4) by (intro nth_in_filtered) auto
  moreover from assms(3) have "trim query \<noteq> []" by (simp add: trim_empty_iff)
  ultimately show ?thesis
    using assms(2) ois
    by (simp add: searchNodes_def Let_def ers_def ors_def induced_graph_def)
qed

theorem searchNodes_reported_observation_witness:
  "index_contract reference \<and>
   loadGraph reference example_state = (fst (loadGraph reference example_state), Inr example_graph) \<and>
   \<not> list_all is_space ''tea'' \<and>
   0 < length (entities example_graph) \<and>
   StrId (String_of_nat 0 @ ''-'' @ String_of_nat 0)
     \<in> set (Index_search reference (observationIndex (fst (loadGraph reference example_state))) ''tea'' 100) \<and>
   (\<exists>result. searchNodes reference ''tea'' example_state =
        (fst (loadGraph reference example_state), Inr result) \<and>
      entities example_graph ! 0 \<in> set (entities result))"
proof -
  have q: "\<not> list_all is_space ''tea''" by (simp add: is_space_def)
  have i: "0 < length (entities example_graph)" by (simp add: example_graph_def)
  have r: "StrId (String_of_nat 0 @ ''-'' @ String_of_nat 0)
     \<in> set (Index_search reference (observationIndex (fst (loadGraph reference example_state))) ''tea'' 100)"
    by code_simp
  from searchNodes_reported_observation [OF index_contract_reference example_load q i r]
    index_contract_reference example_load q i r
  show ?thesis by blast
qed

text \<open>
  The claim as stated fails in three ways. The query of one space is not empty and
  occurs in \<open>likes tea\<close>, and the search returns nothing, by the test for a blank
  query. The query \<open>ea\<close> occurs in \<open>likes tea\<close> and begins no word of it, so the
  reference index does not report it. And of 201 entities that all have the observation
  \<open>likes tea\<close>, the search for \<open>tea\<close> cannot return all: each index is asked for
  100 ids at most.
\<close>

theorem search_substring_counterexample:
  "String_includes ''likes tea'' '' '' \<and> '' '' \<noteq> [] \<and>
   snd (loadGraph reference example_state) = Inr example_graph \<and>
   found_entities (searchNodes reference '' '' example_state) = [] \<and>
   String_includes ''likes tea'' ''ea'' \<and> ''ea'' \<noteq> [] \<and>
   found_entities (searchNodes reference ''ea'' example_state) = [] \<and>
   snd (loadGraph reference tea_state) = Inr tea_graph \<and>
   length (entities tea_graph) = 201 \<and>
   list_all (\<lambda>e. list_ex (\<lambda>ob. String_includes ob ''tea'') (observations e)) (entities tea_graph) \<and>
   \<not> list_all (\<lambda>e. e \<in> set (found_entities (searchNodes reference ''tea'' tea_state)))
       (entities tea_graph)"
proof -
  have 1: "String_includes ''likes tea'' '' '' \<and> '' '' \<noteq> []" by simp
  have 2: "found_entities (searchNodes reference '' '' example_state) = []" by code_simp
  have 3: "String_includes ''likes tea'' ''ea'' \<and> ''ea'' \<noteq> []" by simp
  have 4: "found_entities (searchNodes reference ''ea'' example_state) = []" by code_simp
  have 5: "snd (loadGraph reference tea_state) = Inr tea_graph" by (simp add: tea_load)
  have 6: "length (entities tea_graph) = 201" by (simp add: tea_graph_def)
  from 1 2 3 4 5 6 example_loaded tea_everywhere tea_owner_omitted show ?thesis by blast
qed

text \<open>
  Claim C4. Round trip: for a graph \<open>G\<close> (with unique entity names or not) whose
  objects have no foreign \<open>type\<close> property, saving \<open>G\<close>, loading and saving again
  writes the file that the first save wrote. The load gives the entities and relations of
  \<open>G\<close> in their order, each with its discriminator; the file holds one line for each
  entity, in order, and then one line for each relation, in order.
\<close>

theorem save_load_save:
  assumes "json_codec P" and "well_tagged G"
  shows "loadGraph P (saveGraph P G st) = (saveGraph P G st, Inr (as_stored G)) \<and>
         saveGraph P (as_stored G) (saveGraph P G st) = saveGraph P G st \<and>
         memory_file (saveGraph P G st) =
           Some (join_nl (map (\<lambda>e. JSON_stringify P (entity_line e)) (entities G) @
                          map (\<lambda>r. JSON_stringify P (relation_line r)) (relations G)))"
proof (intro conjI)
  show "loadGraph P (saveGraph P G st) = (saveGraph P G st, Inr (as_stored G))"
    using assms by (rule load_after_save)
  show "saveGraph P (as_stored G) (saveGraph P G st) = saveGraph P G st"
    using assms(2) by (rule saveGraph_as_stored)
  show "memory_file (saveGraph P G st) =
           Some (join_nl (map (\<lambda>e. JSON_stringify P (entity_line e)) (entities G) @
                          map (\<lambda>r. JSON_stringify P (relation_line r)) (relations G)))"
    by (simp add: saveGraph_def rebuildIndexes_def)
qed

theorem save_load_save_witness:
  "json_codec reference \<and>
   well_tagged \<lparr>entities = [alice, bob], relations = [alice_knows_bob]\<rparr> \<and>
   as_stored \<lparr>entities = [alice, bob], relations = [alice_knows_bob]\<rparr> = example_graph \<and>
   loadGraph reference (saveGraph reference \<lparr>entities = [alice, bob], relations = [alice_knows_bob]\<rparr> no_file) =
     (saveGraph reference \<lparr>entities = [alice, bob], relations = [alice_knows_bob]\<rparr> no_file,
      Inr example_graph) \<and>
   saveGraph reference example_graph
       (saveGraph reference \<lparr>entities = [alice, bob], relations = [alice_knows_bob]\<rparr> no_file) =
     saveGraph reference \<lparr>entities = [alice, bob], relations = [alice_knows_bob]\<rparr> no_file \<and>
   memory_file (saveGraph reference \<lparr>entities = [alice, bob], relations = [alice_knows_bob]\<rparr> no_file) =
     Some (join_nl example_lines)"
proof -
  let ?G = "\<lparr>entities = [alice, bob], relations = [alice_knows_bob]\<rparr>"
  have w: "well_tagged ?G"
    by (simp add: well_tagged_def alice_def bob_def alice_knows_bob_def)
  have s: "as_stored ?G = example_graph"
    by (simp add: as_stored_def example_graph_def)
  have f: "memory_file (saveGraph reference ?G no_file) = Some (join_nl example_lines)"
    by code_simp
  from save_load_save [OF json_codec_reference w, of no_file] json_codec_reference w s f
  show ?thesis by simp
qed

text \<open>
  Claim C5. \<open>addObservations\<close> is all-or-nothing when an entity is missing: if some
  request names an entity that the stored graph does not have, the call throws
  \<open>Entity with name ... not found\<close> for the first such request, the memory file is
  left as it was, and a later load gives the graph as it was before the call, so no
  observation of the request is visible, not even one for an entity listed before the
  missing one.
\<close>

theorem addObservations_missing_entity:
  assumes "loadGraph P st = (st1, Inr graph)"
    and "find (\<lambda>o1. entityName o1 \<notin> set (map name (entities graph))) os = Some missing"
  shows "addObservations P os st =
           (st1, Inl (Error (''Entity with name '' @ entityName missing @ '' not found''))) \<and>
         memory_file st1 = memory_file st \<and>
         loadGraph P st1 = (st1, Inr graph)"
  using assms add_each_first_missing [OF assms(2)] loadGraph_file [OF assms(1)]
    loadGraph_again [OF assms(1)]
  by (simp add: addObservations_def)

theorem addObservations_missing_entity_witness:
  "loadGraph reference example_state = (fst (loadGraph reference example_state), Inr example_graph) \<and>
   find (\<lambda>o1. entityName o1 \<notin> set (map name (entities example_graph)))
     [\<lparr>entityName = ''Alice'', contents = [''owns a cat'']\<rparr>,
      \<lparr>entityName = ''Carol'', contents = [''is new'']\<rparr>] =
     Some \<lparr>entityName = ''Carol'', contents = [''is new'']\<rparr> \<and>
   addObservations reference
     [\<lparr>entityName = ''Alice'', contents = [''owns a cat'']\<rparr>,
      \<lparr>entityName = ''Carol'', contents = [''is new'']\<rparr>] example_state =
     (fst (loadGraph reference example_state), Inl (Error ''Entity with name Carol not found'')) \<and>
   memory_file (fst (loadGraph reference example_state)) = memory_file example_state \<and>
   loadGraph reference (fst (loadGraph reference example_state)) =
     (fst (loadGraph reference example_state), Inr example_graph)"
proof -
  have f: "find (\<lambda>o1. entityName o1 \<notin> set (map name (entities example_graph)))
     [\<lparr>entityName = ''Alice'', contents = [''owns a cat'']\<rparr>,
      \<lparr>entityName = ''Carol'', contents = [''is new'']\<rparr>] =
     Some \<lparr>entityName = ''Carol'', contents = [''is new'']\<rparr>"
    by (simp add: example_graph_def alice_def bob_def)
  from addObservations_missing_entity [OF example_load f] example_load f
  show ?thesis by simp
qed

text \<open>
  Claim C6 (amended). \<open>createEntities(es)\<close> called twice in a row: the first call
  appends the entities of \<open>es\<close> whose names the stored graph does not have, the second
  call returns the empty list and leaves the memory file and the stored graph as the
  first call left them. When the entities so appended bear pairwise different names,
  each entity of \<open>es\<close> is inserted at most once: the number of stored entities of its
  name grows by one when the name was not stored, and not at all when it was. (The
  entities are values of the interface, or objects read from the store: they carry no
  foreign \<open>type\<close> property.)
\<close>

theorem createEntities_twice:
  assumes "json_codec P"
    and "list_all (\<lambda>e. e_type e = None \<or> e_type e = Some ''entity'') es"
    and "loadGraph P st = (st0, Inr graph)"
  shows "\<exists>st1 inserted graph1.
           createEntities P es st = (st1, Inr inserted) \<and>
           inserted = filter (\<lambda>e. name e \<notin> set (map name (entities graph))) es \<and>
           loadGraph P st1 = (st1, Inr graph1) \<and>
           graph1 = graph\<lparr>entities :=
                entities graph @ map (\<lambda>e. e\<lparr>e_type := Some ''entity''\<rparr>) inserted\<rparr> \<and>
           createEntities P es st1 = (st1, Inr []) \<and>
           (distinct (map name inserted) \<longrightarrow>
              (\<forall>e \<in> set es.
                 length (filter (\<lambda>x. name x = name e) (entities graph1)) =
                 length (filter (\<lambda>x. name x = name e) (entities graph)) +
                   (if name e \<in> set (map name (entities graph)) then 0 else 1)))"
proof -
  define inserted where "inserted = filter (\<lambda>e. name e \<notin> set (map name (entities graph))) es"
  define graph' where "graph' = graph\<lparr>entities := entities graph @ inserted\<rparr>"
  define st1 where "st1 = saveGraph P graph' st0"
  define stored where "stored = graph\<lparr>entities :=
      entities graph @ map (\<lambda>e. e\<lparr>e_type := Some ''entity''\<rparr>) inserted\<rparr>"
  have ex: "list_ex (\<lambda>existingEntity. name existingEntity = name e) xs \<longleftrightarrow> name e \<in> set (map name xs)"
    for e :: entity and xs
    by (force simp: list_ex_iff image_iff)
  have c1: "createEntities P es st = (st1, Inr inserted)"
    using assms(3) by (simp add: createEntities_def Let_def st1_def graph'_def inserted_def ex)
  from assms(3) have lg: "loaded graph" by (rule loadGraph_loaded)
  with assms(2) have wt: "well_tagged graph'"
    by (auto simp: graph'_def inserted_def well_tagged_def loaded_def list_all_iff)
  from lg have st: "as_stored graph' = stored"
    by (cases graph) (auto simp: graph'_def stored_def as_stored_def loaded_def list_all_iff map_idI)
  from assms(1) wt st have l1: "loadGraph P st1 = (st1, Inr stored)"
    using load_after_save [of P graph' st0] by (simp add: st1_def)
  have none: "filter (\<lambda>e. \<not> list_ex (\<lambda>existingEntity. name existingEntity = name e)
                 (entities stored)) es = []"
    by (auto simp: ex stored_def inserted_def filter_empty_conv image_iff)
  from l1 have "loaded stored" by (rule loadGraph_loaded)
  then have "well_tagged stored" "as_stored stored = stored"
    by (simp_all only: loaded_well_tagged loaded_as_stored)
  with assms(1) have l2: "loadGraph P (saveGraph P stored st1) = (saveGraph P stored st1, Inr stored)"
    using load_after_save [of P stored st1] by simp
  have same: "saveGraph P stored st1 = st1"
    using saveGraph_as_stored [OF wt, of P st0] st by (simp add: st1_def)
  from l1 none same have c2: "createEntities P es st1 = (st1, Inr [])"
    by (simp add: createEntities_def Let_def)
  have once: "length (filter (\<lambda>x. name x = name e) (entities stored)) =
        length (filter (\<lambda>x. name x = name e) (entities graph)) +
          (if name e \<in> set (map name (entities graph)) then 0 else 1)"
    if d: "distinct (map name inserted)" and e: "e \<in> set es" for e
  proof -
    have "length (filter (\<lambda>x. name x = name e) (map (\<lambda>e. e\<lparr>e_type := Some ''entity''\<rparr>) inserted)) =
        length (filter (\<lambda>x. name x = name e) inserted)"
      by (simp add: filter_map comp_def)
    also have "\<dots> = (if name e \<in> set (map name inserted) then 1 else 0)"
      using d by (rule count_distinct_key)
    also have "\<dots> = (if name e \<in> set (map name (entities graph)) then 0 else 1)"
      using e by (force simp: inserted_def image_iff)
    finally show ?thesis by (simp add: stored_def)
  qed
  from c1 l1 c2 once show ?thesis
    unfolding inserted_def by (intro exI [of _ st1] exI [of _ inserted] exI [of _ stored] conjI)
      (auto simp: inserted_def stored_def)
qed

theorem createEntities_twice_witness:
  "json_codec reference \<and>
   list_all (\<lambda>e. e_type e = None \<or> e_type e = Some ''entity'') [alice, carol] \<and>
   loadGraph reference example_state = (fst (loadGraph reference example_state), Inr example_graph) \<and>
   (\<exists>st1 graph1.
      createEntities reference [alice, carol] example_state = (st1, Inr [carol]) \<and>
      loadGraph reference st1 = (st1, Inr graph1) \<and>
      graph1 = example_graph\<lparr>entities :=
          entities example_graph @ [carol\<lparr>e_type := Some ''entity''\<rparr>]\<rparr> \<and>
      createEntities reference [alice, carol] st1 = (st1, Inr []) \<and>
      distinct (map name [carol]) \<and>
      length (filter (\<lambda>x. name x = name alice) (entities example_graph)) = 1 \<and>
      length (filter (\<lambda>x. name x = name alice) (entities graph1)) = 1 \<and>
      length (filter (\<lambda>x. name x = name carol) (entities example_graph)) = 0 \<and>
      length (filter (\<lambda>x. name x = name carol) (entities graph1)) = 1)"
proof -
  let ?es = "[alice, carol]"
  have w: "list_all (\<lambda>e. e_type e = None \<or> e_type e = Some ''entity'') ?es"
    by (simp add: alice_def carol_def)
  have i: "filter (\<lambda>e. name e \<notin> set (map name (entities example_graph))) ?es = [carol]"
    by (simp add: example_graph_def alice_def bob_def carol_def)
  have a: "length (filter (\<lambda>x. name x = name alice) (entities example_graph)) = 1"
    "name alice \<in> set (map name (entities example_graph))"
    by (simp_all add: example_graph_def alice_def bob_def)
  have c: "length (filter (\<lambda>x. name x = name carol) (entities example_graph)) = 0"
    "name carol \<notin> set (map name (entities example_graph))"
    by (simp_all add: example_graph_def alice_def bob_def carol_def)
  from createEntities_twice [OF json_codec_reference w example_load]
  obtain st1 inserted graph1 where
    1: "createEntities reference ?es example_state = (st1, Inr inserted)" and
    2: "inserted = filter (\<lambda>e. name e \<notin> set (map name (entities example_graph))) ?es" and
    3: "loadGraph reference st1 = (st1, Inr graph1)" and
    4: "graph1 = example_graph\<lparr>entities :=
          entities example_graph @ map (\<lambda>e. e\<lparr>e_type := Some ''entity''\<rparr>) inserted\<rparr>" and
    5: "createEntities reference ?es st1 = (st1, Inr [])" and
    6: "distinct (map name inserted) \<longrightarrow>
          (\<forall>e \<in> set ?es.
             length (filter (\<lambda>x. name x = name e) (entities graph1)) =
             length (filter (\<lambda>x. name x = name e) (entities example_graph)) +
               (if name e \<in> set (map name (entities example_graph)) then 0 else 1))"
    by blast
  from 2 i have ins: "inserted = [carol]" by simp
  have d: "distinct (map name [carol])" by simp
  with 6 ins have b: "\<forall>e \<in> set ?es.
             length (filter (\<lambda>x. name x = name e) (entities graph1)) =
             length (filter (\<lambda>x. name x = name e) (entities example_graph)) +
               (if name e \<in> set (map name (entities example_graph)) then 0 else 1)"
    by simp
  from b a have a1: "length (filter (\<lambda>x. name x = name alice) (entities graph1)) = 1"
    by simp
  from b c have c1: "length (filter (\<lambda>x. name x = name carol) (entities graph1)) = 1"
    by simp
  from 4 ins have g: "graph1 = example_graph\<lparr>entities :=
          entities example_graph @ [carol\<lparr>e_type := Some ''entity''\<rparr>]\<rparr>"
    by simp
  from 1 ins have cr: "createEntities reference ?es example_state = (st1, Inr [carol])" by simp
  from json_codec_reference w example_load cr 3 g 5 d a(1) a1 c(1) c1
  show ?thesis by blast
qed

text \<open>
  The claim as stated holds for every list. Here the list names \<open>Alice\<close> twice and
  the store is empty: the first call inserts both, the second call returns the empty
  list, and the stored graph has two entities named \<open>Alice\<close>.
\<close>

theorem createEntities_twice_counterexample:
  "snd (loadGraph reference no_file) = Inr \<lparr>entities = [], relations = []\<rparr> \<and>
   snd (createEntities reference [alice, alice] no_file) = Inr [alice, alice] \<and>
   snd (createEntities reference [alice, alice]
          (fst (createEntities reference [alice, alice] no_file))) = Inr [] \<and>
   snd (loadGraph reference
          (fst (createEntities reference [alice, alice]
             (fst (createEntities reference [alice, alice] no_file))))) =
     Inr \<lparr>entities = [alice\<lparr>e_type := Some ''entity''\<rparr>, alice\<lparr>e_type := Some ''entity''\<rparr>],
          relations = []\<rparr> \<and>
   length (filter (\<lambda>x. name x = name alice)
      [alice\<lparr>e_type := Some ''entity''\<rparr>, alice\<lparr>e_type := Some ''entity''\<rparr>]) = 2"
proof (intro conjI)
  show "snd (loadGraph reference no_file) = Inr \<lparr>entities = [], relations = []\<rparr>"
    by code_simp
  show "snd (createEntities reference [alice, alice] no_file) = Inr [alice, alice]"
    by code_simp
  show "snd (createEntities reference [alice, alice]
          (fst (createEntities reference [alice, alice] no_file))) = Inr []"
    by code_simp
  show "snd (loadGraph reference
          (fst (createEntities reference [alice, alice]
             (fst (createEntities reference [alice, alice] no_file))))) =
     Inr \<lparr>entities = [alice\<lparr>e_type := Some ''entity''\<rparr>, alice\<lparr>e_type := Some ''entity''\<rparr>],
          relations = []\<rparr>"
    by code_simp
  show "length (filter (\<lambda>x. name x = name alice)
      [alice\<lparr>e_type := Some ''entity''\<rparr>, alice\<lparr>e_type := Some ''entity''\<rparr>]) = 2"
    by simp
qed

text \<open>
  Claim C7. Cascade deletion: after \<open>deleteEntities(entityNames)\<close> has completed, the
  graph stored in the memory file has no relation whose \<open>from\<close> or \<open>to\<close> is one of
  the names.
\<close>

theorem deleteEntities_cascade:
  assumes "json_codec P" and "deleteEntities P entityNames st = (st', Inr u)"
  shows "\<exists>graph'. loadGraph P st' = (st', Inr graph') \<and>
           list_all (\<lambda>r. from' r \<notin> set entityNames \<and> to' r \<notin> set entityNames) (relations graph')"
proof -
  from assms(2) obtain st1 graph where l: "loadGraph P st = (st1, Inr graph)"
    by (auto simp: deleteEntities_def split: prod.splits sum.splits)
  let ?g1 = "graph\<lparr>entities := filter (\<lambda>e. name e \<notin> set entityNames) (entities graph)\<rparr>"
  let ?g2 = "?g1\<lparr>relations :=
     filter (\<lambda>r. from' r \<notin> set entityNames \<and> to' r \<notin> set entityNames) (relations ?g1)\<rparr>"
  from l assms(2) have st': "st' = saveGraph P ?g2 st1"
    by (simp add: deleteEntities_def Let_def)
  from l have "loaded graph" by (rule loadGraph_loaded)
  then have "loaded ?g2" by (intro loaded_filter_relations loaded_filter_entities)
  then have "well_tagged ?g2" "as_stored ?g2 = ?g2"
    by (simp_all only: loaded_well_tagged loaded_as_stored)
  with assms(1) st' have "loadGraph P st' = (st', Inr ?g2)"
    using load_after_save [of P ?g2 st1] by simp
  moreover have "list_all (\<lambda>r. from' r \<notin> set entityNames \<and> to' r \<notin> set entityNames) (relations ?g2)"
    by (simp add: list_all_iff)
  ultimately show ?thesis by blast
qed

theorem deleteEntities_cascade_witness:
  "json_codec reference \<and>
   deleteEntities reference [''Bob''] example_state =
     (fst (deleteEntities reference [''Bob''] example_state), Inr ()) \<and>
   (\<exists>graph'. loadGraph reference (fst (deleteEntities reference [''Bob''] example_state)) =
        (fst (deleteEntities reference [''Bob''] example_state), Inr graph') \<and>
      list_all (\<lambda>r. from' r \<notin> set [''Bob''] \<and> to' r \<notin> set [''Bob'']) (relations graph'))"
proof -
  have "snd (deleteEntities reference [''Bob''] example_state) = Inr ()" by code_simp
  then have d: "deleteEntities reference [''Bob''] example_state =
      (fst (deleteEntities reference [''Bob''] example_state), Inr ())"
    by (rule pair_of_snd)
  from deleteEntities_cascade [OF json_codec_reference d] json_codec_reference d
  show ?thesis by blast
qed

text \<open>
  Claim C8. For every stored graph, \<open>searchNodes\<close> applied to an empty or
  white-space-only query returns the empty graph, never the whole graph: when the
  memory file loads, the result is \<open>{entities: [], relations: []}\<close>, and the state is
  the one the load left.
\<close>

theorem searchNodes_blank_query:
  assumes "loadGraph P st = (st1, Inr graph)" and "list_all is_space query"
  shows "searchNodes P query st = (st1, Inr \<lparr>entities = [], relations = []\<rparr>)"
  using assms by (simp add: searchNodes_def trim_empty_iff)

theorem searchNodes_blank_query_witness:
  "loadGraph reference example_state = (fst (loadGraph reference example_state), Inr example_graph) \<and>
   list_all is_space [CHR 32, CHR 9, CHR 10] \<and>
   searchNodes reference [CHR 32, CHR 9, CHR 10] example_state =
     (fst (loadGraph reference example_state), Inr \<lparr>entities = [], relations = []\<rparr>)"
proof -
  have b: "list_all is_space [CHR 32, CHR 9, CHR 10]" by (simp add: is_space_def)
  from searchNodes_blank_query [OF example_load b] example_load b show ?thesis by blast
qed

text \<open>
  Claim C9 (amended). \<open>searchNodes\<close> asks the entity index for at most 100 ids and the
  observation index for at most 100 ids: for a query that is not blank its result is
  the graph induced by the stored entities at the positions that the entity index
  gives at limit 100, or that begin an id that the observation index gives at limit
  100, and nothing else of the indexes. So with an index that keeps to the limit the
  result has at most 200 entities; of more than 200 different entities, whatever they
  match, at least one is not in the result.
\<close>

theorem searchNodes_result_bound:
  assumes "index_contract P" and "searchNodes P query st = (st', Inr result)"
  shows "\<exists>graph matched.
           loadGraph P st = (st', Inr graph) \<and>
           (if trim query = [] then result = \<lparr>entities = [], relations = []\<rparr>
            else observation_entity_indexes (Index_search P (observationIndex st') query 100) =
                   Inr matched \<and>
                 length matched \<le> 100 \<and>
                 result = induced_graph graph
                   (map snd (filter (\<lambda>(i, e).
                        NumId i \<in> set (Index_search P (entityIndex st') query 100) \<or>
                        int i \<in> set matched)
                      (enumerate_from0 (entities graph))))) \<and>
           length (Index_search P (entityIndex st') query 100) \<le> 100 \<and>
           length (Index_search P (observationIndex st') query 100) \<le> 100 \<and>
           length (entities result) \<le> 200 \<and>
           (\<forall>ms. distinct ms \<and> 200 < length ms \<longrightarrow> \<not> set ms \<subseteq> set (entities result))"
proof -
  from assms(2) obtain graph where l: "loadGraph P st = (st', Inr graph)"
    by (auto simp: searchNodes_def Let_def split: prod.splits sum.splits if_splits)
  from assms(1) have le: "length (Index_search P (entityIndex st') query 100) \<le> 100"
    "length (Index_search P (observationIndex st') query 100) \<le> 100"
    by (simp_all add: index_contract_def)
  have b: "length (entities result) \<le> 200"
    using assms by (rule searchNodes_length_bound)
  have om: "\<not> set ms \<subseteq> set (entities result)" if m: "distinct ms \<and> 200 < length ms"
    for ms :: "entity list"
  proof
    assume "set ms \<subseteq> set (entities result)"
    then have "card (set ms) \<le> card (set (entities result))"
      by (intro card_mono) auto
    moreover from m have "card (set ms) = length ms" by (simp add: distinct_card)
    moreover have "card (set (entities result)) \<le> length (entities result)"
      by (rule card_length)
    ultimately show False using b m by linarith
  qed
  have "\<exists>matched. if trim query = [] then result = \<lparr>entities = [], relations = []\<rparr>
            else observation_entity_indexes (Index_search P (observationIndex st') query 100) =
                   Inr matched \<and>
                 length matched \<le> 100 \<and>
                 result = induced_graph graph
                   (map snd (filter (\<lambda>(i, e).
                        NumId i \<in> set (Index_search P (entityIndex st') query 100) \<or>
                        int i \<in> set matched)
                      (enumerate_from0 (entities graph))))"
  proof (cases "trim query = []")
    case True
    with l assms(2) show ?thesis by (auto simp: searchNodes_def)
  next
    case False
    define ors where "ors = Index_search P (observationIndex st') query 100"
    from l False assms(2) obtain ois where
      ois: "observation_entity_indexes ors = Inr ois" and
      res: "result = induced_graph graph
              (map snd (filter (\<lambda>(i, e).
                   NumId i \<in> set (Index_search P (entityIndex st') query 100) \<or> int i \<in> set ois)
                 (enumerate_from0 (entities graph))))"
      by (auto simp: searchNodes_def Let_def ors_def split: sum.splits)
    have "length ois \<le> length ors"
      using ois
    proof (induction ors arbitrary: ois)
      case Nil
      then show ?case by simp
    next
      case (Cons x xs)
      then show ?case
        by (cases x) (auto split: sum.splits option.splits)
    qed
    with le(2) have "length ois \<le> 100" by (simp add: ors_def)
    with False ois res show ?thesis unfolding ors_def by auto
  qed
  with l le b om show ?thesis by blast
qed

theorem searchNodes_result_bound_witness:
  "index_contract reference \<and>
   searchNodes reference ''e'' tea_state =
     (tea_state, Inr \<lparr>entities = map tea_drinker [0..<100], relations = []\<rparr>) \<and>
   loadGraph reference tea_state = (tea_state, Inr tea_graph) \<and>
   trim ''e'' \<noteq> [] \<and>
   observation_entity_indexes (Index_search reference (observationIndex tea_state) ''e'' 100) =
     Inr [] \<and>
   \<lparr>entities = map tea_drinker [0..<100], relations = []\<rparr> =
     induced_graph tea_graph
       (map snd (filter (\<lambda>(i, e).
            NumId i \<in> set (Index_search reference (entityIndex tea_state) ''e'' 100) \<or>
            int i \<in> set [])
          (enumerate_from0 (entities tea_graph)))) \<and>
   length (Index_search reference (entityIndex tea_state) ''e'' 100) \<le> 100 \<and>
   length (Index_search reference (observationIndex tea_state) ''e'' 100) \<le> 100 \<and>
   length (entities \<lparr>entities = map tea_drinker [0..<100], relations = []\<rparr>) \<le> 200 \<and>
   length (entities tea_graph) = 201 \<and>
   distinct (entities tea_graph) \<and>
   \<not> set (entities tea_graph) \<subseteq>
       set (entities \<lparr>entities = map tea_drinker [0..<100], relations = []\<rparr>)"
proof -
  let ?r = "\<lparr>entities = map tea_drinker [0..<100], relations = []\<rparr>"
  have t: "trim ''e'' \<noteq> []" by (simp add: trim_empty_iff is_space_def)
  have n: "length (entities tea_graph) = 201" by (simp add: tea_graph_def)
  have o: "observation_entity_indexes (Index_search reference (observationIndex tea_state) ''e'' 100) =
     Inr []"
    by (simp only: tea_observation_results observation_entity_indexes.simps)
  from searchNodes_result_bound [OF index_contract_reference tea_search]
  obtain graph matched where
    l: "loadGraph reference tea_state = (tea_state, Inr graph)" and
    c: "if trim ''e'' = [] then ?r = \<lparr>entities = [], relations = []\<rparr>
        else observation_entity_indexes (Index_search reference (observationIndex tea_state) ''e'' 100) =
               Inr matched \<and>
             length matched \<le> 100 \<and>
             ?r = induced_graph graph
               (map snd (filter (\<lambda>(i, e).
                    NumId i \<in> set (Index_search reference (entityIndex tea_state) ''e'' 100) \<or>
                    int i \<in> set matched)
                  (enumerate_from0 (entities graph))))" and
    b: "length (Index_search reference (entityIndex tea_state) ''e'' 100) \<le> 100"
       "length (Index_search reference (observationIndex tea_state) ''e'' 100) \<le> 100"
       "length (entities ?r) \<le> 200" and
    om: "\<forall>ms. distinct ms \<and> 200 < length ms \<longrightarrow> \<not> set ms \<subseteq> set (entities ?r)"
    by blast
  from l have g: "graph = tea_graph" by (simp add: tea_load)
  from c t o have m: "matched = []" by (simp only: if_False) simp
  from c t have r: "?r = induced_graph tea_graph
       (map snd (filter (\<lambda>(i, e).
            NumId i \<in> set (Index_search reference (entityIndex tea_state) ''e'' 100) \<or>
            int i \<in> set [])
          (enumerate_from0 (entities tea_graph))))"
    unfolding g m by (simp only: if_False)
  from om tea_distinct n have x: "\<not> set (entities tea_graph) \<subseteq> set (entities ?r)"
    by simp
  from index_contract_reference tea_search tea_load t o r b n tea_distinct x
  show ?thesis by (intro conjI)
qed

text \<open>
  The claim as stated says that some matching entity is omitted as soon as more than
  100 match. Here 101 entities match the query \<open>n\<close>: the entity index reports the
  first 100, the observation index reports the observation of the last one, and the
  result holds all 101.
\<close>

theorem searchNodes_result_bound_counterexample:
  "length (entities crowd_graph) = 101 \<and>
   list_all (\<lambda>e. document_matches ''n'' (name e @ '' '' @ entityType e)) (entities crowd_graph) \<and>
   snd (loadGraph reference crowd_state) = Inr crowd_graph \<and>
   found_entities (searchNodes reference ''n'' crowd_state) = entities crowd_graph"
proof -
  have 1: "length (entities crowd_graph) = 101" by (simp add: crowd_graph_def)
  have 2: "list_all (\<lambda>e. document_matches ''n'' (name e @ '' '' @ entityType e)) (entities crowd_graph)"
    by (auto simp: list_all_iff crowd_graph_def crowd_member_def straggler_def document_matches_n)
  have 3: "snd (loadGraph reference crowd_state) = Inr crowd_graph" by (simp add: crowd_load)
  have 4: "found_entities (searchNodes reference ''n'' crowd_state) = entities crowd_graph"
    by (simp add: crowd_search found_entities_def)
  from 1 2 3 4 show ?thesis by blast
qed

text \<open>
  Claim C10. Every entity of a graph that \<open>readGraph\<close> returns still has the property
  \<open>type\<close> it was written with, equal to \<open>entity\<close>, and every relation has
  \<open>type\<close> equal to \<open>relation\<close>: \<open>loadGraph\<close> pushes the parsed object whole.
\<close>

theorem readGraph_keeps_discriminator:
  assumes "readGraph P st = (st', Inr graph)"
  shows "list_all (\<lambda>e. e_type e = Some ''entity'') (entities graph) \<and>
         list_all (\<lambda>r. r_type r = Some ''relation'') (relations graph)"
  using assms loadGraph_loaded [of P st st' graph] by (simp add: readGraph_def loaded_def)

theorem readGraph_keeps_discriminator_witness:
  "readGraph reference example_state = (fst (loadGraph reference example_state), Inr example_graph) \<and>
   list_all (\<lambda>e. e_type e = Some ''entity'') (entities example_graph) \<and>
   list_all (\<lambda>r. r_type r = Some ''relation'') (relations example_graph)"
proof -
  have r: "readGraph reference example_state =
      (fst (loadGraph reference example_state), Inr example_graph)"
    using example_load by (simp add: readGraph_def)
  from readGraph_keeps_discriminator [OF r] r show ?thesis by blast
qed

end
